theory Spec2Isabelle
  imports Complex_Main "HOL-Library.Option_ord" "HOL-Library.AList"
begin

section \<open>Replicated rows\<close>

text \<open>
  The client receives rows of nine tables as plain JavaScript objects and tells their
  kinds apart by the fields they carry (\<^verbatim>\<open>utils/typeGuards.ts\<close>). One record type
  holds every field the guards and the renderers read. A field is \<open>None\<close> when the
  object does not have it (\<^verbatim>\<open>typeof e.f === 'undefined'\<close>); a field that is
  present holds a value of the type its generated declaration gives it, so
  \<^verbatim>\<open>typeof e.posX === 'number'\<close> is \<open>posX e \<noteq> None\<close> and
  \<^verbatim>\<open>typeof e.isBurning === 'boolean'\<close> is \<open>isBurning e \<noteq> None\<close>.
  JavaScript numbers are modelled as reals. The guards' leading \<^verbatim>\<open>entity &&\<close> is true
  of every object. The field \<^verbatim>\<open>id\<close> is \<open>rowId\<close> here and the tag
  \<^verbatim>\<open>__entityType\<close> is \<open>entityType\<close>.
\<close>

record entity =
  identity :: "string option"
  positionX :: "real option"
  positionY :: "real option"
  isDead :: bool
  direction :: string
  jumpStartTimeMs :: int
  treeType :: "string option"
  posX :: "real option"
  posY :: "real option"
  health :: "real option"
  placedBy :: "string option"
  isBurning :: "bool option"
  isPlayerInHotZone :: bool
  itemDefId :: "int option"
  rowId :: "int option"
  slot_instance_id_0 :: "int option"
  respawnAt :: "int option"
  entityType :: "string option"

text \<open>The object with no field at all; the examples below build rows from it.\<close>

definition blank :: entity where
  "blank = \<lparr>identity = None, positionX = None, positionY = None, isDead = False,
     direction = ''down'', jumpStartTimeMs = 0, treeType = None, posX = None, posY = None,
     health = None, placedBy = None, isBurning = None, isPlayerInHotZone = False, itemDefId = None,
     rowId = None, slot_instance_id_0 = None, respawnAt = None, entityType = None\<rparr>"

subsection \<open>Type guards\<close>

definition isPlayer :: "entity \<Rightarrow> bool" where
  "isPlayer e \<longleftrightarrow> identity e \<noteq> None \<and> positionX e \<noteq> None"

definition isTree :: "entity \<Rightarrow> bool" where
  "isTree e \<longleftrightarrow> treeType e \<noteq> None \<and> posX e \<noteq> None"

definition isStone :: "entity \<Rightarrow> bool" where
  "isStone e \<longleftrightarrow> health e \<noteq> None \<and> posX e \<noteq> None \<and> posY e \<noteq> None \<and>
     identity e = None \<and> treeType e = None \<and> placedBy e = None \<and> itemDefId e = None"

definition isCampfire :: "entity \<Rightarrow> bool" where
  "isCampfire e \<longleftrightarrow> placedBy e \<noteq> None \<and> posX e \<noteq> None \<and> posY e \<noteq> None \<and>
     isBurning e \<noteq> None"

definition isMushroom :: "entity \<Rightarrow> bool" where
  "isMushroom e \<longleftrightarrow> posX e \<noteq> None \<and> posY e \<noteq> None \<and> rowId e \<noteq> None \<and>
     identity e = None \<and> treeType e = None \<and> health e = None \<and> placedBy e = None \<and>
     itemDefId e = None"

definition isCorn :: "entity \<Rightarrow> bool" where
  "isCorn e \<longleftrightarrow> posX e \<noteq> None \<and> posY e \<noteq> None \<and> rowId e \<noteq> None \<and>
     identity e = None \<and> treeType e = None \<and> health e = None \<and> placedBy e = None \<and>
     itemDefId e = None"

definition isWoodenStorageBox :: "entity \<Rightarrow> bool" where
  "isWoodenStorageBox e \<longleftrightarrow> posX e \<noteq> None \<and> posY e \<noteq> None \<and> placedBy e \<noteq> None \<and>
     isBurning e = None"

definition isDroppedItem :: "entity \<Rightarrow> bool" where
  "isDroppedItem e \<longleftrightarrow> posX e \<noteq> None \<and> posY e \<noteq> None \<and> itemDefId e \<noteq> None \<and>
     identity e = None \<and> treeType e = None \<and> health e = None \<and> placedBy e = None"

definition isSleepingBag :: "entity \<Rightarrow> bool" where
  "isSleepingBag e \<longleftrightarrow> posX e \<noteq> None \<and> posY e \<noteq> None \<and> placedBy e \<noteq> None \<and>
     isBurning e = None \<and> slot_instance_id_0 e = None"

lemmas guard_defs = isPlayer_def isTree_def isStone_def isCampfire_def isMushroom_def
  isCorn_def isWoodenStorageBox_def isDroppedItem_def isSleepingBag_def

text \<open>The nine kinds, and the guard of each.\<close>

datatype kind = Player | Tree | Stone | Campfire | Mushroom | Corn | DroppedItem
  | WoodenStorageBox | SleepingBag

fun guard :: "kind \<Rightarrow> entity \<Rightarrow> bool" where
  "guard Player = isPlayer"
| "guard Tree = isTree"
| "guard Stone = isStone"
| "guard Campfire = isCampfire"
| "guard Mushroom = isMushroom"
| "guard Corn = isCorn"
| "guard DroppedItem = isDroppedItem"
| "guard WoodenStorageBox = isWoodenStorageBox"
| "guard SleepingBag = isSleepingBag"

definition allKinds :: "kind list" where
  "allKinds = [Player, Tree, Stone, Campfire, Mushroom, Corn, DroppedItem,
     WoodenStorageBox, SleepingBag]"

definition matchingKinds :: "entity \<Rightarrow> kind list" where
  "matchingKinds e = filter (\<lambda>k. guard k e) allKinds"

subsection \<open>Viewport culling\<close>

record viewportBounds =
  viewMinX :: real
  viewMaxX :: real
  viewMinY :: real
  viewMaxY :: real

definition tileSize :: real where
  "tileSize = 48"

definition getViewportBounds :: "real \<Rightarrow> real \<Rightarrow> real \<Rightarrow> real \<Rightarrow> viewportBounds" where
  "getViewportBounds cameraOffsetX cameraOffsetY canvasWidth canvasHeight =
     (let buffer = tileSize * 2 in
      \<lparr>viewMinX = - cameraOffsetX - buffer,
       viewMaxX = - cameraOffsetX + canvasWidth + buffer,
       viewMinY = - cameraOffsetY - buffer,
       viewMaxY = - cameraOffsetY + canvasHeight + buffer\<rparr>)"

text \<open>
  The end of \<^verbatim>\<open>isEntityInView\<close>: false when a coordinate is undefined, the overlap
  test otherwise.
\<close>

definition aabbOverlap :: "real option \<Rightarrow> real option \<Rightarrow> real \<Rightarrow> real \<Rightarrow> viewportBounds \<Rightarrow> bool" where
  "aabbOverlap x y width height bounds =
     (case (x, y) of
        (Some xv, Some yv) \<Rightarrow>
          xv + width / 2 > viewMinX bounds \<and> xv - width / 2 < viewMaxX bounds \<and>
          yv + height / 2 > viewMinY bounds \<and> yv - height / 2 < viewMaxY bounds
      | _ \<Rightarrow> False)"

text \<open>\<^verbatim>\<open>isEntityInView\<close> of \<^verbatim>\<open>hooks/useEntityFiltering.ts\<close>.\<close>

definition isEntityInView :: "entity \<Rightarrow> viewportBounds \<Rightarrow> bool" where
  "isEntityInView entity bounds =
     (if isPlayer entity then aabbOverlap (positionX entity) (positionY entity) 64 64 bounds
      else if isTree entity then aabbOverlap (posX entity) (posY entity) 96 128 bounds
      else if isStone entity then aabbOverlap (posX entity) (posY entity) 64 64 bounds
      else if isCampfire entity then aabbOverlap (posX entity) (posY entity) 64 64 bounds
      else if isMushroom entity then aabbOverlap (posX entity) (posY entity) 32 32 bounds
      else if isDroppedItem entity then aabbOverlap (posX entity) (posY entity) 32 32 bounds
      else if isWoodenStorageBox entity then aabbOverlap (posX entity) (posY entity) 64 64 bounds
      else if isSleepingBag entity then aabbOverlap (posX entity) (posY entity) 64 32 bounds
      else if isCorn entity then aabbOverlap (posX entity) (posY entity) 32 48 bounds
      else False)"

text \<open>\<^verbatim>\<open>isEntityInView\<close> of \<^verbatim>\<open>components/GameCanvas.tsx\<close>.\<close>

definition isEntityInView_GC :: "entity \<Rightarrow> viewportBounds \<Rightarrow> bool" where
  "isEntityInView_GC entity bounds =
     (if isPlayer entity then aabbOverlap (positionX entity) (positionY entity) 64 64 bounds
      else if isTree entity then aabbOverlap (posX entity) (posY entity) 96 128 bounds
      else if isStone entity then aabbOverlap (posX entity) (posY entity) 64 64 bounds
      else if isCampfire entity then aabbOverlap (posX entity) (posY entity) 64 64 bounds
      else if isMushroom entity then aabbOverlap (posX entity) (posY entity) 32 32 bounds
      else if isCorn entity then aabbOverlap (posX entity) (posY entity) 32 48 bounds
      else if isDroppedItem entity then aabbOverlap (posX entity) (posY entity) 32 32 bounds
      else if isWoodenStorageBox entity then aabbOverlap (posX entity) (posY entity) 64 64 bounds
      else False)"

text \<open>
  The position and the size a kind is given in the branches above: the player is placed
  by \<open>positionX\<close> and \<open>positionY\<close>, every other kind by \<open>posX\<close> and \<open>posY\<close>.
\<close>

fun kindX :: "kind \<Rightarrow> entity \<Rightarrow> real option" where
  "kindX Player e = positionX e"
| "kindX k e = posX e"

fun kindY :: "kind \<Rightarrow> entity \<Rightarrow> real option" where
  "kindY Player e = positionY e"
| "kindY k e = posY e"

fun kindWidth :: "kind \<Rightarrow> real" where
  "kindWidth Player = 64"
| "kindWidth Tree = 96"
| "kindWidth Stone = 64"
| "kindWidth Campfire = 64"
| "kindWidth Mushroom = 32"
| "kindWidth Corn = 32"
| "kindWidth DroppedItem = 32"
| "kindWidth WoodenStorageBox = 64"
| "kindWidth SleepingBag = 64"

fun kindHeight :: "kind \<Rightarrow> real" where
  "kindHeight Player = 64"
| "kindHeight Tree = 128"
| "kindHeight Stone = 64"
| "kindHeight Campfire = 64"
| "kindHeight Mushroom = 32"
| "kindHeight Corn = 48"
| "kindHeight DroppedItem = 32"
| "kindHeight WoodenStorageBox = 64"
| "kindHeight SleepingBag = 32"

text \<open>The strict overlap test on a box centred at \<open>(x, y)\<close>.\<close>

definition strictOverlap :: "real \<Rightarrow> real \<Rightarrow> real \<Rightarrow> real \<Rightarrow> viewportBounds \<Rightarrow> bool" where
  "strictOverlap x y w h b \<longleftrightarrow>
     x + w / 2 > viewMinX b \<and> x - w / 2 < viewMaxX b \<and>
     y + h / 2 > viewMinY b \<and> y - h / 2 < viewMaxY b"

subsection \<open>Visible sets and paint order\<close>

text \<open>
  A snapshot of the replicated tables. Each \<^verbatim>\<open>Map<string, Row>\<close> is read only through
  \<^verbatim>\<open>Array.from(map.values())\<close>, so a table is the list of its rows in insertion order.
  \<^verbatim>\<open>GameCanvas\<close> has no property for the sleeping bags and never reads that table.
\<close>

record tables =
  players :: "entity list"
  trees :: "entity list"
  stones :: "entity list"
  campfires :: "entity list"
  mushrooms :: "entity list"
  corns :: "entity list"
  droppedItems :: "entity list"
  woodenStorageBoxes :: "entity list"
  sleepingBags :: "entity list"

text \<open>\<^verbatim>\<open>e.health > 0\<close>; the comparison is false when the field is undefined.\<close>

definition healthAboveZero :: "entity \<Rightarrow> bool" where
  "healthAboveZero e = (case health e of Some h \<Rightarrow> h > 0 | None \<Rightarrow> False)"

text \<open>
  The comparator of both sorts is \<^verbatim>\<open>yA - yB\<close> with the key below.
  \<^verbatim>\<open>Array.prototype.sort\<close> belongs to the JavaScript engine; ECMAScript requires it to
  be stable and, for a comparator that is a consistent ordering, to sort by it. It is
  modelled by the stable insertion sort \<open>sort_key\<close>. The keys are optional reals
  ordered with \<open>None\<close> first; \<open>yKey_defined\<close> below shows that no row of a
  sorted list has an undefined key, where the comparator would return \<^verbatim>\<open>NaN\<close>.
\<close>

definition yKey :: "entity \<Rightarrow> real option" where
  "yKey a = (if isPlayer a then positionY a else posY a)"

definition yKey_GC :: "entity \<Rightarrow> real option" where
  "yKey_GC a = (if isPlayer a then positionY a
                else (if isWoodenStorageBox a then posY a else posY a))"

text \<open>The hook \<^verbatim>\<open>useEntityFiltering\<close>.\<close>

definition visibleMushrooms :: "tables \<Rightarrow> viewportBounds \<Rightarrow> entity list" where
  "visibleMushrooms w viewBounds =
     filter (\<lambda>e. respawnAt e = None \<and> isEntityInView e viewBounds) (mushrooms w)"

definition visibleCorns :: "tables \<Rightarrow> viewportBounds \<Rightarrow> entity list" where
  "visibleCorns w viewBounds =
     filter (\<lambda>e. respawnAt e = None \<and> isEntityInView e viewBounds) (corns w)"

definition visibleDroppedItems :: "tables \<Rightarrow> viewportBounds \<Rightarrow> entity list" where
  "visibleDroppedItems w viewBounds = filter (\<lambda>e. isEntityInView e viewBounds) (droppedItems w)"

definition visibleCampfires :: "tables \<Rightarrow> viewportBounds \<Rightarrow> entity list" where
  "visibleCampfires w viewBounds = filter (\<lambda>e. isEntityInView e viewBounds) (campfires w)"

definition visiblePlayers :: "tables \<Rightarrow> viewportBounds \<Rightarrow> entity list" where
  "visiblePlayers w viewBounds = filter (\<lambda>e. isEntityInView e viewBounds) (players w)"

definition visibleTrees :: "tables \<Rightarrow> viewportBounds \<Rightarrow> entity list" where
  "visibleTrees w viewBounds =
     filter (\<lambda>e. healthAboveZero e \<and> isEntityInView e viewBounds) (trees w)"

definition visibleStones :: "tables \<Rightarrow> viewportBounds \<Rightarrow> entity list" where
  "visibleStones w viewBounds =
     filter (\<lambda>e. healthAboveZero e \<and> isEntityInView e viewBounds) (stones w)"

definition visibleWoodenStorageBoxes :: "tables \<Rightarrow> viewportBounds \<Rightarrow> entity list" where
  "visibleWoodenStorageBoxes w viewBounds =
     filter (\<lambda>e. isEntityInView e viewBounds) (woodenStorageBoxes w)"

definition visibleSleepingBags :: "tables \<Rightarrow> viewportBounds \<Rightarrow> entity list" where
  "visibleSleepingBags w viewBounds = filter (\<lambda>e. isEntityInView e viewBounds) (sleepingBags w)"

definition groundItems :: "tables \<Rightarrow> viewportBounds \<Rightarrow> entity list" where
  "groundItems w viewBounds =
     visibleDroppedItems w viewBounds @ visibleCampfires w viewBounds @
     visibleSleepingBags w viewBounds"

definition ySortedEntities :: "tables \<Rightarrow> viewportBounds \<Rightarrow> entity list" where
  "ySortedEntities w viewBounds =
     (let entities = visiblePlayers w viewBounds @ visibleTrees w viewBounds @
                     filter healthAboveZero (visibleStones w viewBounds) @
                     visibleWoodenStorageBoxes w viewBounds
      in sort_key yKey entities)"

text \<open>The component \<^verbatim>\<open>GameCanvas\<close>, which filters on its own.\<close>

definition visibleMushrooms_GC :: "tables \<Rightarrow> viewportBounds \<Rightarrow> entity list" where
  "visibleMushrooms_GC w viewBounds =
     map (\<lambda>mushroom. mushroom\<lparr>entityType := Some ''mushroom''\<rparr>)
       (filter (\<lambda>e. respawnAt e = None \<and> isEntityInView_GC e viewBounds) (mushrooms w))"

definition visibleCorns_GC :: "tables \<Rightarrow> viewportBounds \<Rightarrow> entity list" where
  "visibleCorns_GC w viewBounds =
     map (\<lambda>corn. corn\<lparr>entityType := Some ''corn''\<rparr>)
       (filter (\<lambda>e. respawnAt e = None \<and> isEntityInView_GC e viewBounds) (corns w))"

definition visibleDroppedItems_GC :: "tables \<Rightarrow> viewportBounds \<Rightarrow> entity list" where
  "visibleDroppedItems_GC w viewBounds =
     filter (\<lambda>e. isEntityInView_GC e viewBounds) (droppedItems w)"

definition visibleCampfires_GC :: "tables \<Rightarrow> viewportBounds \<Rightarrow> entity list" where
  "visibleCampfires_GC w viewBounds = filter (\<lambda>e. isEntityInView_GC e viewBounds) (campfires w)"

definition visibleTrees_GC :: "tables \<Rightarrow> viewportBounds \<Rightarrow> entity list" where
  "visibleTrees_GC w viewBounds =
     filter (\<lambda>e. healthAboveZero e \<and> isEntityInView_GC e viewBounds) (trees w)"

definition visibleStones_GC :: "tables \<Rightarrow> viewportBounds \<Rightarrow> entity list" where
  "visibleStones_GC w viewBounds =
     filter (\<lambda>e. healthAboveZero e \<and> isEntityInView_GC e viewBounds) (stones w)"

definition visibleWoodenStorageBoxes_GC :: "tables \<Rightarrow> viewportBounds \<Rightarrow> entity list" where
  "visibleWoodenStorageBoxes_GC w viewBounds =
     filter (\<lambda>e. isEntityInView_GC e viewBounds) (woodenStorageBoxes w)"

definition visiblePlayers_GC :: "tables \<Rightarrow> viewportBounds \<Rightarrow> entity list" where
  "visiblePlayers_GC w viewBounds =
     filter (\<lambda>p. \<not> isDead p \<and> isEntityInView_GC p viewBounds) (players w)"

definition groundItems_GC :: "tables \<Rightarrow> viewportBounds \<Rightarrow> entity list" where
  "groundItems_GC w viewBounds =
     visibleMushrooms_GC w viewBounds @ visibleCorns_GC w viewBounds @
     visibleDroppedItems_GC w viewBounds @ visibleCampfires_GC w viewBounds"

definition ySortedEntities_GC :: "tables \<Rightarrow> viewportBounds \<Rightarrow> entity list" where
  "ySortedEntities_GC w viewBounds =
     (let entities = visiblePlayers_GC w viewBounds @ visibleTrees_GC w viewBounds @
                     visibleStones_GC w viewBounds @ visibleWoodenStorageBoxes_GC w viewBounds
      in sort_key yKey_GC entities)"

text \<open>
  Which renderer \<^verbatim>\<open>renderGroundEntities\<close> calls for a ground item, \<open>None\<close> when it
  draws nothing.
\<close>

datatype groundRenderer = RenderCorn | RenderDroppedItem | RenderMushroom | RenderCampfire

definition renderGroundEntity :: "entity \<Rightarrow> groundRenderer option" where
  "renderGroundEntity entity =
     (if entityType entity = Some ''corn'' then Some RenderCorn
      else if isDroppedItem entity then Some RenderDroppedItem
      else if isCorn entity then Some RenderCorn
      else if isMushroom entity then Some RenderMushroom
      else if isCampfire entity then Some RenderCampfire
      else None)"

subsection \<open>Player pose and hover\<close>

definition JUMP_DURATION_MS :: real where
  "JUMP_DURATION_MS = 400"

definition JUMP_HEIGHT_PX :: real where
  "JUMP_HEIGHT_PX = 40"

text \<open>The jump offset that \<^verbatim>\<open>renderYSortedEntities\<close> computes for a player.\<close>

definition jumpOffset :: "real \<Rightarrow> entity \<Rightarrow> real" where
  "jumpOffset nowMs entity =
     (let jumpStartTime = jumpStartTimeMs entity in
      if jumpStartTime > 0 then
        (let elapsedJumpTime = nowMs - real_of_int jumpStartTime in
         if elapsedJumpTime < JUMP_DURATION_MS then
           (let d = JUMP_DURATION_MS; h = JUMP_HEIGHT_PX; x = elapsedJumpTime
            in (- 4 * h / (d * d)) * x * (x - d))
         else 0)
      else 0)"

text \<open>
  The rotation \<^verbatim>\<open>renderPlayer\<close> applies to the sprite: a quarter turn for a dead
  player, its sign by the direction, and \<open>None\<close> when it does not rotate.
\<close>

definition renderPlayerRotation :: "entity \<Rightarrow> real option" where
  "renderPlayerRotation player =
     (if isDead player then
        Some (if direction player = ''up'' \<or> direction player = ''right'' then - pi / 2
              else pi / 2)
      else None)"

definition spriteWidth :: real where
  "spriteWidth = 48"

definition playerRadius :: real where
  "playerRadius = spriteWidth / 2"

text \<open>
  The mouse coordinates are \<open>None\<close> when they are \<^verbatim>\<open>null\<close>. A player row whose
  position is undefined gives \<^verbatim>\<open>NaN < radiusSq\<close>, which is false.
\<close>

definition isPlayerHovered :: "real option \<Rightarrow> real option \<Rightarrow> entity \<Rightarrow> bool" where
  "isPlayerHovered worldMouseX worldMouseY player =
     (case (worldMouseX, worldMouseY) of
        (Some mx, Some my) \<Rightarrow>
          (case (positionX player, positionY player) of
             (Some px, Some py) \<Rightarrow>
               (let hoverDX = mx - px; hoverDY = my - py;
                    distSq = hoverDX * hoverDX + hoverDY * hoverDY;
                    radiusSq = playerRadius * playerRadius
                in distSq < radiusSq)
           | _ \<Rightarrow> False)
      | _ \<Rightarrow> False)"

text \<open>
  The call of \<^verbatim>\<open>onPlayerHover\<close> that \<^verbatim>\<open>renderYSortedEntities\<close> makes for one entity
  of the list: \<open>Some (playerId, newHoverState)\<close>, or \<open>None\<close> when it makes none. The
  identity is kept as its hexadecimal string, so \<^verbatim>\<open>identity.toHexString()\<close> is the
  field itself; \<^verbatim>\<open>hoveredPlayerIds\<close> is a set of such strings.
\<close>

definition onPlayerHoverCall ::
  "real option \<Rightarrow> real option \<Rightarrow> string set \<Rightarrow> entity \<Rightarrow> (string \<times> bool) option" where
  "onPlayerHoverCall worldMouseX worldMouseY hoveredPlayerIds entity =
     (case identity entity of
        None \<Rightarrow> None
      | Some playerId \<Rightarrow>
          if isPlayer entity then
            (let currentlyHovered = isPlayerHovered worldMouseX worldMouseY entity;
                 isPersistentlyHovered = (playerId \<in> hoveredPlayerIds)
             in if (worldMouseX \<noteq> None \<and> worldMouseY \<noteq> None \<and>
                      currentlyHovered \<noteq> isPersistentlyHovered) \<or>
                   (worldMouseX = None \<and> worldMouseY = None \<and> isPersistentlyHovered)
                then
                  (let newHoverState =
                     (if worldMouseX = None \<or> worldMouseY = None then False
                      else currentlyHovered)
                   in Some (playerId, newHoverState))
                else None)
          else None)"

text \<open>All the calls of one frame, in the order of the list.\<close>

definition hoverCalls ::
  "real option \<Rightarrow> real option \<Rightarrow> string set \<Rightarrow> entity list \<Rightarrow> (string \<times> bool) list" where
  "hoverCalls worldMouseX worldMouseY hoveredPlayerIds ySorted =
     List.map_filter (onPlayerHoverCall worldMouseX worldMouseY hoveredPlayerIds) ySorted"

subsection \<open>Campfire particles\<close>

text \<open>
  The hook \<^verbatim>\<open>useCampfireParticles\<close>. A tick decides, for every visible campfire, how
  many particles of each type to create; this is what is modelled. The attributes a new
  particle draws from \<^verbatim>\<open>Math.random()\<close> (position, velocity, lifetime, size, colour)
  and the ageing of the particles already alive, which depends on them, are left out: a
  particle is its type and its spawn time.
\<close>

datatype particleType = fire | smoke | smoke_burst

record particle =
  ptype :: particleType
  spawnTime :: real

definition SMOKE_PARTICLES_PER_CAMPFIRE_FRAME :: real where
  "SMOKE_PARTICLES_PER_CAMPFIRE_FRAME = 0.3"

definition SMOKE_LINGER_DURATION_MS :: real where
  "SMOKE_LINGER_DURATION_MS = 4000"

text \<open>The emission zones of the fire, each with its name and its emission rate.\<close>

definition FIRE_EMISSION_ZONES :: "(string \<times> real) list" where
  "FIRE_EMISSION_ZONES = [(''top'', 0.4), (''middle'', 0.3), (''base'', 0.15)]"

text \<open>
  The mutable references of the hook. A JavaScript \<^verbatim>\<open>Map\<close> is an association list in
  insertion order: \<^verbatim>\<open>get\<close> is \<open>map_of\<close>, \<^verbatim>\<open>set\<close> is \<open>AList.update\<close> and
  \<^verbatim>\<open>delete\<close> is \<open>AList.delete\<close>. The linger record holds its \<^verbatim>\<open>lingerUntil\<close>.
\<close>

record refs =
  fireEmissionAccumulator :: "(string \<times> real) list"
  smokeEmissionAccumulator :: "(string \<times> real) list"
  smokeBurstEmissionAccumulator :: "(string \<times> real) list"
  prevBurningStates :: "(string \<times> bool) list"
  lingeringSmokeData :: "(string \<times> real) list"
  lastUpdateTime :: real

text \<open>\<^verbatim>\<open>map.get(key) || 0\<close>.\<close>

definition getOrZero :: "(string \<times> real) list \<Rightarrow> string \<Rightarrow> real" where
  "getOrZero m key = (case map_of m key of Some a \<Rightarrow> a | None \<Rightarrow> 0)"

text \<open>
  \<^verbatim>\<open>while (acc >= 1) { acc -= 1; push(...) }\<close>: the accumulator that is left and the
  number of particles pushed.
\<close>

function emitWhile :: "real \<Rightarrow> nat \<Rightarrow> real \<times> nat" where
  "emitWhile acc n = (if acc \<ge> 1 then emitWhile (acc - 1) (Suc n) else (acc, n))"
  by pat_completeness auto
termination
proof (relation "measure (\<lambda>(acc, n). nat \<lfloor>acc\<rfloor>)")
  show "wf (measure (\<lambda>(acc, n). nat \<lfloor>acc\<rfloor>))" by simp
next
  fix acc :: real and n :: nat
  assume "1 \<le> acc"
  then have "1 \<le> \<lfloor>acc\<rfloor>" by linarith
  moreover have "\<lfloor>acc - 1\<rfloor> = \<lfloor>acc\<rfloor> - 1" by linarith
  ultimately show "((acc - 1, Suc n), acc, n) \<in> measure (\<lambda>(acc, n). nat \<lfloor>acc\<rfloor>)"
    by simp
qed

declare emitWhile.simps [simp del]

text \<open>One tick of an accumulator: \<^verbatim>\<open>acc += rate * deltaTimeFactor\<close>, then the loop.\<close>

definition accumulate :: "real \<Rightarrow> real \<Rightarrow> real \<Rightarrow> real \<times> nat" where
  "accumulate rate deltaTimeFactor acc = emitWhile (acc + rate * deltaTimeFactor) 0"

text \<open>
  An accumulator followed over the ticks of a list of frame times \<^verbatim>\<open>deltaTime\<close> (in
  milliseconds): the accumulator at the end and the number of particles emitted in all.
\<close>

fun accumulateAll :: "real \<Rightarrow> real list \<Rightarrow> real \<Rightarrow> real \<times> nat" where
  "accumulateAll rate [] acc = (acc, 0)"
| "accumulateAll rate (deltaTime # rest) acc =
     (let (acc1, n) = accumulate rate (deltaTime / 16.667) acc;
          (acc2, m) = accumulateAll rate rest acc1
      in (acc2, n + m))"

text \<open>The fire of one campfire: every zone in turn, with its accumulator under
  \<^verbatim>\<open>`${campfireId}_${zone.name}`\<close>.\<close>

fun fireZones ::
  "real \<Rightarrow> real \<Rightarrow> string \<Rightarrow> (string \<times> real) list \<Rightarrow> (string \<times> real) list \<Rightarrow>
   (string \<times> real) list \<times> particle list" where
  "fireZones now deltaTimeFactor campfireId [] accs = (accs, [])"
| "fireZones now deltaTimeFactor campfireId ((zoneName, emissionRate) # zones) accs =
     (let key = campfireId @ ''_'' @ zoneName;
          (fireAcc, n) = accumulate emissionRate deltaTimeFactor (getOrZero accs key);
          (accs', ps) = fireZones now deltaTimeFactor campfireId zones
                          (AList.update key fireAcc accs)
      in (accs', replicate n \<lparr>ptype = fire, spawnTime = now\<rparr> @ ps))"

fun resetZones :: "string \<Rightarrow> (string \<times> real) list \<Rightarrow> (string \<times> real) list \<Rightarrow> (string \<times> real) list" where
  "resetZones campfireId [] accs = accs"
| "resetZones campfireId ((zoneName, emissionRate) # zones) accs =
     resetZones campfireId zones (AList.update (campfireId @ ''_'' @ zoneName) 0 accs)"

text \<open>\<^verbatim>\<open>prevBurningStatesRef.current.get(campfireId) || false\<close>.\<close>

definition wasBurningBefore :: "refs \<Rightarrow> string \<Rightarrow> bool" where
  "wasBurningBefore st campfireId =
     (case map_of (prevBurningStates st) campfireId of Some b \<Rightarrow> b | None \<Rightarrow> False)"

text \<open>
  The body of \<^verbatim>\<open>visibleCampfiresMap.forEach\<close> for one campfire: the references after
  it and the particles it pushes, in the order it pushes them.
\<close>

definition processCampfire ::
  "real \<Rightarrow> real \<Rightarrow> string \<Rightarrow> entity \<Rightarrow> refs \<Rightarrow> refs \<times> particle list" where
  "processCampfire now deltaTimeFactor campfireId campfire st =
     (let wasBurning = wasBurningBefore st campfireId;
          isCurrentlyBurning = (isBurning campfire = Some True);
          lingeringEntry = map_of (lingeringSmokeData st) campfireId;
          (generateFireThisFrame, generateSmokeThisFrame, lingering) =
            (if isCurrentlyBurning then
               (True, True, AList.delete campfireId (lingeringSmokeData st))
             else
               (let (lingeringEntry1, lingering1) =
                      (if wasBurning then
                         (Some (now + SMOKE_LINGER_DURATION_MS),
                          AList.update campfireId (now + SMOKE_LINGER_DURATION_MS)
                            (lingeringSmokeData st))
                       else (lingeringEntry, lingeringSmokeData st))
                in case lingeringEntry1 of
                     Some lingerUntil \<Rightarrow>
                       if now < lingerUntil then (False, True, lingering1)
                       else (False, False, AList.delete campfireId lingering1)
                   | None \<Rightarrow> (False, False, lingering1)));
          prev = AList.update campfireId isCurrentlyBurning (prevBurningStates st);
          (fireAccs, fireParticles) =
            (if generateFireThisFrame then
               fireZones now deltaTimeFactor campfireId FIRE_EMISSION_ZONES
                 (fireEmissionAccumulator st)
             else (resetZones campfireId FIRE_EMISSION_ZONES (fireEmissionAccumulator st), []));
          (smokeAccs, smokeParticles) =
            (if generateSmokeThisFrame then
               (let (smokeAcc, n) = accumulate SMOKE_PARTICLES_PER_CAMPFIRE_FRAME deltaTimeFactor
                                      (getOrZero (smokeEmissionAccumulator st) campfireId)
                in (AList.update campfireId smokeAcc (smokeEmissionAccumulator st),
                    replicate n \<lparr>ptype = smoke, spawnTime = now\<rparr>))
             else (AList.update campfireId 0 (smokeEmissionAccumulator st), []));
          (burstAccs, burstParticles) =
            (if isPlayerInHotZone campfire \<and> isCurrentlyBurning then
               (let (burstAcc, n) = accumulate 4.0 deltaTimeFactor
                                      (getOrZero (smokeBurstEmissionAccumulator st) campfireId)
                in (AList.update campfireId burstAcc (smokeBurstEmissionAccumulator st),
                    replicate n \<lparr>ptype = smoke_burst, spawnTime = now\<rparr>))
             else (AList.update campfireId 0 (smokeBurstEmissionAccumulator st), []))
      in (st\<lparr>fireEmissionAccumulator := fireAccs,
             smokeEmissionAccumulator := smokeAccs,
             smokeBurstEmissionAccumulator := burstAccs,
             prevBurningStates := prev,
             lingeringSmokeData := lingering\<rparr>,
          fireParticles @ smokeParticles @ burstParticles))"

text \<open>
  \<^verbatim>\<open>visibleCampfiresMap.forEach\<close> over the entries of the map. The particles are kept
  with the campfire whose iteration pushed them; \<^verbatim>\<open>newGeneratedParticles\<close> is their
  concatenation.
\<close>

fun forEachCampfire ::
  "real \<Rightarrow> real \<Rightarrow> (string \<times> entity) list \<Rightarrow> refs \<Rightarrow> refs \<times> (string \<times> particle list) list" where
  "forEachCampfire now deltaTimeFactor [] st = (st, [])"
| "forEachCampfire now deltaTimeFactor ((campfireId, campfire) # rest) st =
     (let (st1, ps) = processCampfire now deltaTimeFactor campfireId campfire st;
          (st2, generated) = forEachCampfire now deltaTimeFactor rest st1
      in (st2, (campfireId, ps) # generated))"

text \<open>The clean-up of the references of the campfires that are no longer visible.\<close>

definition cleanupRefs :: "string list \<Rightarrow> refs \<Rightarrow> refs" where
  "cleanupRefs currentVisibleCampfireIds st =
     (let gone = filter (\<lambda>campfireId. campfireId \<notin> set currentVisibleCampfireIds)
                   (map fst (prevBurningStates st));
          st1 = st\<lparr>prevBurningStates := fold AList.delete gone (prevBurningStates st),
                   fireEmissionAccumulator :=
                     fold (\<lambda>campfireId accs.
                             fold (\<lambda>(zoneName, emissionRate).
                                     AList.delete (campfireId @ ''_'' @ zoneName))
                               FIRE_EMISSION_ZONES accs)
                       gone (fireEmissionAccumulator st),
                   smokeEmissionAccumulator := fold AList.delete gone (smokeEmissionAccumulator st),
                   smokeBurstEmissionAccumulator :=
                     fold AList.delete gone (smokeBurstEmissionAccumulator st),
                   lingeringSmokeData := fold AList.delete gone (lingeringSmokeData st)\<rparr>
      in st1\<lparr>lingeringSmokeData :=
                AList.restrict (set currentVisibleCampfireIds) (lingeringSmokeData st1),
              smokeBurstEmissionAccumulator :=
                AList.restrict (set currentVisibleCampfireIds)
                  (smokeBurstEmissionAccumulator st1)\<rparr>)"

text \<open>
  One run of \<^verbatim>\<open>updateParticles\<close> at the time \<open>now\<close> with the visible campfires of the
  moment: nothing but the clock changes when no time has passed.
\<close>

definition updateParticles ::
  "real \<Rightarrow> (string \<times> entity) list \<Rightarrow> refs \<Rightarrow> refs \<times> (string \<times> particle list) list" where
  "updateParticles now visibleCampfiresMap st =
     (let deltaTime = now - lastUpdateTime st;
          st0 = st\<lparr>lastUpdateTime := now\<rparr>
      in if deltaTime \<le> 0 then (st0, [])
         else
           (let deltaTimeFactor = deltaTime / 16.667;
                (st1, generated) = forEachCampfire now deltaTimeFactor visibleCampfiresMap st0
            in (cleanupRefs (map fst visibleCampfiresMap) st1, generated)))"

text \<open>
  What happens to the hook, in order: a frame of its loop at the time \<open>now\<close>, with the
  visible campfires of the render that started the loop, or the effect run again at the
  time \<open>now\<close> because the map has changed, which cancels the pending frame and sets
  \<^verbatim>\<open>lastUpdateTimeRef\<close> only. A run lists what every event generated.
\<close>

datatype event = Tick real "(string \<times> entity) list" | Remount real

fun simulate :: "event list \<Rightarrow> refs \<Rightarrow> refs \<times> (string \<times> particle list) list list" where
  "simulate [] st = (st, [])"
| "simulate (Tick now visibleCampfiresMap # events) st =
     (let (st1, generated) = updateParticles now visibleCampfiresMap st;
          (st2, later) = simulate events st1
      in (st2, generated # later))"
| "simulate (Remount now # events) st =
     (let (st2, later) = simulate events (st\<lparr>lastUpdateTime := now\<rparr>)
      in (st2, [] # later))"

text \<open>The references when the hook is mounted at the time \<open>t0\<close>.\<close>

definition initialRefs :: "real \<Rightarrow> refs" where
  "initialRefs t0 = \<lparr>fireEmissionAccumulator = [], smokeEmissionAccumulator = [],
     smokeBurstEmissionAccumulator = [], prevBurningStates = [], lingeringSmokeData = [],
     lastUpdateTime = t0\<rparr>"

subsection \<open>Vocabulary of the statements\<close>

text \<open>The part of the references that is kept under the id \<open>k\<close> of a campfire.\<close>

definition view :: "refs \<Rightarrow> string \<Rightarrow> bool option \<times> real option \<times> real option" where
  "view st k = (map_of (prevBurningStates st) k, map_of (lingeringSmokeData st) k,
                map_of (smokeEmissionAccumulator st) k)"

text \<open>
  Whether a campfire that is not burning still smokes at the time \<open>now\<close>: it was
  burning at the tick before, or its linger record has not run out.
\<close>

definition smokeOn :: "real \<Rightarrow> refs \<Rightarrow> string \<Rightarrow> bool" where
  "smokeOn now st k \<longleftrightarrow>
     (if wasBurningBefore st k then True
      else (case map_of (lingeringSmokeData st) k of Some u \<Rightarrow> now < u | None \<Rightarrow> False))"



text \<open>
  The same for a campfire that is visible and burning in every frame; the frame times
  \<^verbatim>\<open>deltaTime\<close> of the frames of a run (an effect run again puts the clock forward and
  is no frame); and the number of smoke particles a run generates for \<open>k\<close>.
\<close>

fun staysOn :: "string \<Rightarrow> real \<Rightarrow> event list \<Rightarrow> bool" where
  "staysOn k lastTime [] = True"
| "staysOn k lastTime (Tick now cs # events) =
     (lastTime < now \<and> distinct (map fst cs) \<and>
      (case map_of cs k of Some c \<Rightarrow> isBurning c = Some True | None \<Rightarrow> False) \<and>
      staysOn k now events)"
| "staysOn k lastTime (Remount now # events) = (lastTime \<le> now \<and> staysOn k now events)"

fun frameTimes :: "real \<Rightarrow> event list \<Rightarrow> real list" where
  "frameTimes lastTime [] = []"
| "frameTimes lastTime (Tick now cs # events) = (now - lastTime) # frameTimes now events"
| "frameTimes lastTime (Remount now # events) = frameTimes now events"

definition smokeCount :: "string \<Rightarrow> (string \<times> particle list) list list \<Rightarrow> nat" where
  "smokeCount k gens =
     sum_list (map (\<lambda>gen. case map_of gen k of
                             Some ps \<Rightarrow> length (filter (\<lambda>p. ptype p = smoke) ps)
                           | None \<Rightarrow> 0) gens)"

subsection \<open>Example rows and snapshots\<close>

text \<open>A sleeping bag as the server replicates it: a position, an id and who placed it.\<close>

definition aSleepingBag :: entity where
  "aSleepingBag = blank\<lparr>rowId := Some 7, posX := Some 100, posY := Some 100,
     placedBy := Some ''c200''\<rparr>"

definition edgePlayer :: entity where
  "edgePlayer = blank\<lparr>identity := Some ''c0ffee'', positionX := Some 0, positionY := Some 50\<rparr>"

definition unitBounds :: viewportBounds where
  "unitBounds = \<lparr>viewMinX = 0, viewMaxX = 100, viewMinY = 0, viewMaxY = 100\<rparr>"

definition aMushroom :: entity where
  "aMushroom = blank\<lparr>rowId := Some 3, posX := Some 200, posY := Some 150\<rparr>"

definition aTree :: entity where
  "aTree = blank\<lparr>rowId := Some 1, treeType := Some ''Oak'', posX := Some 300, posY := Some 120,
     health := Some 100\<rparr>"

definition aStone :: entity where
  "aStone = blank\<lparr>rowId := Some 2, posX := Some 400, posY := Some 60, health := Some 50\<rparr>"

definition aBox :: entity where
  "aBox = blank\<lparr>rowId := Some 4, posX := Some 500, posY := Some 120,
     placedBy := Some ''c200'', slot_instance_id_0 := Some 11\<rparr>"

definition alivePlayer :: entity where
  "alivePlayer = blank\<lparr>identity := Some ''c200'', positionX := Some 100, positionY := Some 120,
     jumpStartTimeMs := 1000\<rparr>"

definition deadPlayer :: entity where
  "deadPlayer = blank\<lparr>identity := Some ''c300'', positionX := Some 150, positionY := Some 90,
     isDead := True\<rparr>"

definition exampleTables :: tables where
  "exampleTables = \<lparr>players = [alivePlayer, deadPlayer], trees = [aTree], stones = [aStone],
     campfires = [], mushrooms = [aMushroom], corns = [], droppedItems = [],
     woodenStorageBoxes = [aBox], sleepingBags = [aSleepingBag]\<rparr>"

definition exampleView :: viewportBounds where
  "exampleView = getViewportBounds 0 0 800 600"

definition campfireOn :: entity where
  "campfireOn = blank\<lparr>rowId := Some 1, posX := Some 100, posY := Some 100,
     placedBy := Some ''c200'', isBurning := Some True\<rparr>"


definition campfireHot :: entity where
  "campfireHot = campfireOn\<lparr>isPlayerInHotZone := True\<rparr>"


definition aCorn :: entity where
  "aCorn = blank\<lparr>rowId := Some 5, posX := Some 50, posY := Some 20\<rparr>"

definition cornBounds :: viewportBounds where
  "cornBounds = \<lparr>viewMinX = 0, viewMaxX = 100, viewMinY = 40, viewMaxY = 100\<rparr>"

definition bagBounds :: viewportBounds where
  "bagBounds = \<lparr>viewMinX = 0, viewMaxX = 200, viewMinY = 0, viewMaxY = 80\<rparr>"

definition burningRun :: "event list" where
  "burningRun = [Tick 16.667 [(''1'', campfireOn)], Tick 50.001 [(''1'', campfireOn)],
                 Remount 60, Tick 93.334 [(''1'', campfireOn)]]"

section \<open>Classification\<close>

lemma isSleepingBag_imp_isWoodenStorageBox: "isSleepingBag e \<Longrightarrow> isWoodenStorageBox e"
  by (simp add: isSleepingBag_def isWoodenStorageBox_def)

lemma isCorn_eq_isMushroom: "isCorn e = isMushroom e"
  by (simp add: isCorn_def isMushroom_def)

lemma isStone_exclusive:
  "isStone e \<Longrightarrow> matchingKinds e = [Stone]"
  by (auto simp: matchingKinds_def allKinds_def guard_defs)

lemma isDroppedItem_exclusive:
  "isDroppedItem e \<Longrightarrow> matchingKinds e = [DroppedItem]"
  by (auto simp: matchingKinds_def allKinds_def guard_defs)

lemma isMushroom_matches:
  "isMushroom e \<Longrightarrow> matchingKinds e = [Mushroom, Corn]"
  by (auto simp: matchingKinds_def allKinds_def guard_defs)

lemma isCampfire_not_box: "isCampfire e \<Longrightarrow> \<not> isWoodenStorageBox e \<and> \<not> isSleepingBag e"
  by (auto simp: guard_defs)

text \<open>
  C1. At most one of the nine guards should hold of a row (mushroom and corn apart), and
  in particular no row should be both a storage box and a sleeping bag. The guard of
  the sleeping bag asks for everything the guard of the storage box asks for, so the
  sleeping bag row above satisfies both, and these two are the guards it satisfies.
\<close>

theorem sleeping_bag_is_storage_box:
  "isSleepingBag aSleepingBag \<and> isWoodenStorageBox aSleepingBag \<and>
   matchingKinds aSleepingBag = [WoodenStorageBox, SleepingBag]"
  by (simp add: aSleepingBag_def blank_def matchingKinds_def allKinds_def guard_defs)

text \<open>
  What the guards do tell apart: a stone and a dropped item satisfy no other guard, a
  mushroom satisfies the guards of the mushroom and of the corn and no other, and a
  campfire is none of the other placed or flat kinds.
\<close>

theorem exclusive_guards:
  "(isStone e \<longrightarrow> matchingKinds e = [Stone]) \<and>
   (isDroppedItem e \<longrightarrow> matchingKinds e = [DroppedItem]) \<and>
   (isMushroom e \<longrightarrow> matchingKinds e = [Mushroom, Corn]) \<and>
   (isCampfire e \<longrightarrow> \<not> isWoodenStorageBox e \<and> \<not> isSleepingBag e \<and> \<not> isStone e \<and>
      \<not> isMushroom e \<and> \<not> isCorn e \<and> \<not> isDroppedItem e)"
proof (intro conjI impI)
  show "matchingKinds e = [Stone]" if "isStone e" using that by (rule isStone_exclusive)
  show "matchingKinds e = [DroppedItem]" if "isDroppedItem e"
    using that by (rule isDroppedItem_exclusive)
  show "matchingKinds e = [Mushroom, Corn]" if "isMushroom e"
    using that by (rule isMushroom_matches)
  assume c: "isCampfire e"
  then show "\<not> isWoodenStorageBox e" "\<not> isSleepingBag e"
    using isCampfire_not_box by blast+
  from c show "\<not> isStone e" by (simp add: isCampfire_def isStone_def)
  from c show "\<not> isMushroom e" by (simp add: isCampfire_def isMushroom_def)
  from c show "\<not> isCorn e" by (simp add: isCampfire_def isCorn_def)
  from c show "\<not> isDroppedItem e" by (simp add: isCampfire_def isDroppedItem_def)
qed

theorem exclusive_guards_witness:
  "isStone aStone \<and> matchingKinds aStone = [Stone] \<and>
   isMushroom aMushroom \<and> matchingKinds aMushroom = [Mushroom, Corn] \<and>
   isCampfire campfireOn \<and> \<not> isWoodenStorageBox campfireOn"
proof -
  have s: "isStone aStone" by (simp add: aStone_def blank_def isStone_def)
  have m: "isMushroom aMushroom" by (simp add: aMushroom_def blank_def isMushroom_def)
  have c: "isCampfire campfireOn" by (simp add: campfireOn_def blank_def isCampfire_def)
  from exclusive_guards [of aStone] s have "matchingKinds aStone = [Stone]" by blast
  moreover from exclusive_guards [of aMushroom] m
  have "matchingKinds aMushroom = [Mushroom, Corn]" by blast
  moreover from exclusive_guards [of campfireOn] c
  have "\<not> isWoodenStorageBox campfireOn" by blast
  ultimately show ?thesis using s m c by simp
qed

section \<open>Viewport culling\<close>

lemma matchingKinds_single_cases:
  assumes "matchingKinds e = [k]"
  shows "k = Player \<and> isPlayer e \<and> \<not> isTree e \<and> \<not> isCampfire e \<and> \<not> isWoodenStorageBox e \<or>
         k = Tree \<and> \<not> isPlayer e \<and> isTree e \<or>
         k = Stone \<and> \<not> isPlayer e \<and> \<not> isTree e \<and> isStone e \<or>
         k = Campfire \<and> \<not> isPlayer e \<and> \<not> isTree e \<and> \<not> isStone e \<and> isCampfire e \<or>
         k = DroppedItem \<and> \<not> isPlayer e \<and> \<not> isTree e \<and> \<not> isStone e \<and> \<not> isCampfire e \<and>
            \<not> isMushroom e \<and> \<not> isCorn e \<and> isDroppedItem e \<or>
         k = WoodenStorageBox \<and> \<not> isPlayer e \<and> \<not> isTree e \<and> \<not> isStone e \<and> \<not> isCampfire e \<and>
            \<not> isMushroom e \<and> \<not> isCorn e \<and> \<not> isDroppedItem e \<and> isWoodenStorageBox e"
  using assms
  by (auto simp: matchingKinds_def allKinds_def isCorn_eq_isMushroom split: if_splits
      dest: isSleepingBag_imp_isWoodenStorageBox)

lemma aabbOverlap_iff:
  "aabbOverlap x y w h b \<longleftrightarrow> (\<exists>xv yv. x = Some xv \<and> y = Some yv \<and> strictOverlap xv yv w h b)"
  by (auto simp: aabbOverlap_def strictOverlap_def split: option.splits)

lemma isEntityInView_single_kind:
  assumes "matchingKinds e = [k]"
  shows "isEntityInView e b \<longleftrightarrow>
           (\<exists>x y. kindX k e = Some x \<and> kindY k e = Some y \<and>
                  strictOverlap x y (kindWidth k) (kindHeight k) b)"
    and "isEntityInView_GC e b \<longleftrightarrow>
           (\<exists>x y. kindX k e = Some x \<and> kindY k e = Some y \<and>
                  strictOverlap x y (kindWidth k) (kindHeight k) b)"
proof -
  from matchingKinds_single_cases [OF assms]
  show "isEntityInView e b \<longleftrightarrow>
        (\<exists>x y. kindX k e = Some x \<and> kindY k e = Some y \<and>
               strictOverlap x y (kindWidth k) (kindHeight k) b)"
    by (elim disjE conjE) (simp_all add: isEntityInView_def aabbOverlap_iff)
  from matchingKinds_single_cases [OF assms]
  show "isEntityInView_GC e b \<longleftrightarrow>
        (\<exists>x y. kindX k e = Some x \<and> kindY k e = Some y \<and>
               strictOverlap x y (kindWidth k) (kindHeight k) b)"
    by (elim disjE conjE) (simp_all add: isEntityInView_GC_def aabbOverlap_iff)
qed

lemma isEntityInView_no_kind:
  assumes "matchingKinds e = []"
  shows "\<not> isEntityInView e b" and "\<not> isEntityInView_GC e b"
proof -
  from assms have "\<not> isPlayer e" "\<not> isTree e" "\<not> isStone e" "\<not> isCampfire e" "\<not> isMushroom e"
    "\<not> isCorn e" "\<not> isDroppedItem e" "\<not> isWoodenStorageBox e" "\<not> isSleepingBag e"
    by (auto simp: matchingKinds_def allKinds_def split: if_splits)
  then show "\<not> isEntityInView e b" "\<not> isEntityInView_GC e b"
    by (simp_all add: isEntityInView_def isEntityInView_GC_def)
qed

lemma strictOverlap_touching:
  "x + w / 2 = viewMinX b \<or> x - w / 2 = viewMaxX b \<or>
   y + h / 2 = viewMinY b \<or> y - h / 2 = viewMaxY b \<Longrightarrow> \<not> strictOverlap x y w h b"
  by (auto simp: strictOverlap_def)

lemma strictOverlap_centre_on_edge:
  "0 < w \<Longrightarrow> viewMinX b \<le> viewMaxX b \<Longrightarrow> x = viewMinX b \<or> x = viewMaxX b \<Longrightarrow>
     strictOverlap x y w h b \<longleftrightarrow> y + h / 2 > viewMinY b \<and> y - h / 2 < viewMaxY b"
  by (auto simp: strictOverlap_def)

text \<open>
  C2, as the code has it. For a row that satisfies the guard of one kind only,
  \<^verbatim>\<open>isEntityInView\<close> (of the hook and of \<^verbatim>\<open>GameCanvas\<close>) is true exactly when the
  position of that kind is defined and the box of that kind's fixed width and height,
  centred there, passes the strict test on both axes; a row that satisfies no guard is
  not in view. The inequalities are strict on the edges of the box: a box that only
  touches the bounds from outside is excluded, and a row whose centre lies on a vertical
  edge of the bounds is in view exactly when its box overlaps the bounds vertically.
\<close>

theorem isEntityInView_strict_overlap:
  "(matchingKinds e = [k] \<longrightarrow>
      (isEntityInView e b \<longleftrightarrow>
        (\<exists>x y. kindX k e = Some x \<and> kindY k e = Some y \<and>
               strictOverlap x y (kindWidth k) (kindHeight k) b)) \<and>
      (isEntityInView_GC e b \<longleftrightarrow>
        (\<exists>x y. kindX k e = Some x \<and> kindY k e = Some y \<and>
               strictOverlap x y (kindWidth k) (kindHeight k) b))) \<and>
   (matchingKinds e = [] \<longrightarrow> \<not> isEntityInView e b \<and> \<not> isEntityInView_GC e b) \<and>
   (strictOverlap x y w h b \<longleftrightarrow>
      x + w / 2 > viewMinX b \<and> x - w / 2 < viewMaxX b \<and>
      y + h / 2 > viewMinY b \<and> y - h / 2 < viewMaxY b) \<and>
   (x + w / 2 = viewMinX b \<or> x - w / 2 = viewMaxX b \<or>
    y + h / 2 = viewMinY b \<or> y - h / 2 = viewMaxY b \<longrightarrow> \<not> strictOverlap x y w h b) \<and>
   (0 < w \<and> viewMinX b \<le> viewMaxX b \<and> (x = viewMinX b \<or> x = viewMaxX b) \<longrightarrow>
      (strictOverlap x y w h b \<longleftrightarrow> y + h / 2 > viewMinY b \<and> y - h / 2 < viewMaxY b))"
  using isEntityInView_single_kind [of e k b] isEntityInView_no_kind [of e b]
    strictOverlap_touching [of x w b y h] strictOverlap_centre_on_edge [of w b x y h]
  by (simp add: strictOverlap_def)

text \<open>
  A centre on an edge does not exclude: a player whose centre lies exactly on the left
  edge of the bounds is in view.
\<close>

theorem centre_on_edge_in_view:
  "positionX edgePlayer = Some (viewMinX unitBounds) \<and>
   isEntityInView edgePlayer unitBounds \<and> isEntityInView_GC edgePlayer unitBounds"
  by (simp add: edgePlayer_def unitBounds_def blank_def isEntityInView_def
      isEntityInView_GC_def isPlayer_def aabbOverlap_def)

theorem isEntityInView_strict_overlap_witness:
  "matchingKinds edgePlayer = [Player] \<and> isEntityInView edgePlayer unitBounds \<and>
   strictOverlap 0 50 64 64 unitBounds \<and> \<not> strictOverlap (-32) 50 64 64 unitBounds"
proof -
  have m: "matchingKinds edgePlayer = [Player]"
    by (simp add: edgePlayer_def blank_def matchingKinds_def allKinds_def guard_defs)
  have p: "kindX Player edgePlayer = Some 0" "kindY Player edgePlayer = Some 50"
    by (simp_all add: edgePlayer_def blank_def)
  note t = isEntityInView_strict_overlap [of edgePlayer Player unitBounds]
  have s: "strictOverlap 0 50 64 64 unitBounds"
    using t [of 0 50 64 64] by (simp add: unitBounds_def)
  have "\<not> strictOverlap (-32) 50 64 64 unitBounds"
    using t [of "-32" 50 64 64] by (simp add: unitBounds_def)
  moreover have "isEntityInView edgePlayer unitBounds"
    using t [of 0 50 64 64] m p s by simp
  ultimately show ?thesis using m s by simp
qed

text \<open>
  Two branches of \<^verbatim>\<open>isEntityInView\<close> are never reached. A sleeping bag is culled with
  the 64 by 64 box of the storage box, not with its own 64 by 32, and a corn row with
  the 32 by 32 box of the mushroom, not with its own 32 by 48.
\<close>

theorem unreachable_boxes:
  "(isSleepingBag e \<and> \<not> isPlayer e \<and> \<not> isTree e \<longrightarrow>
      isEntityInView e b = aabbOverlap (posX e) (posY e) 64 64 b) \<and>
   (isCorn e \<longrightarrow> isEntityInView e b = aabbOverlap (posX e) (posY e) 32 32 b \<and>
                 isEntityInView_GC e b = aabbOverlap (posX e) (posY e) 32 32 b)"
proof (intro conjI impI)
  assume "isSleepingBag e \<and> \<not> isPlayer e \<and> \<not> isTree e"
  then have bag: "isSleepingBag e" and "\<not> isPlayer e" "\<not> isTree e" by simp_all
  moreover from bag have "\<not> isStone e" by (simp add: isSleepingBag_def isStone_def)
  moreover from bag have "\<not> isCampfire e" by (simp add: isSleepingBag_def isCampfire_def)
  moreover from bag have "\<not> isMushroom e" by (simp add: isSleepingBag_def isMushroom_def)
  moreover from bag have "\<not> isDroppedItem e" by (simp add: isSleepingBag_def isDroppedItem_def)
  moreover from bag have "isWoodenStorageBox e" by (rule isSleepingBag_imp_isWoodenStorageBox)
  ultimately show "isEntityInView e b = aabbOverlap (posX e) (posY e) 64 64 b"
    by (simp add: isEntityInView_def)
next
  assume corn: "isCorn e"
  then have "isMushroom e" by (simp add: isCorn_eq_isMushroom)
  moreover from corn have "\<not> isPlayer e" by (simp add: isCorn_def isPlayer_def)
  moreover from corn have "\<not> isTree e" by (simp add: isCorn_def isTree_def)
  moreover from corn have "\<not> isStone e" by (simp add: isCorn_def isStone_def)
  moreover from corn have "\<not> isCampfire e" by (simp add: isCorn_def isCampfire_def)
  ultimately show "isEntityInView e b = aabbOverlap (posX e) (posY e) 32 32 b"
    and "isEntityInView_GC e b = aabbOverlap (posX e) (posY e) 32 32 b"
    by (simp_all add: isEntityInView_def isEntityInView_GC_def)
qed

theorem unreachable_boxes_witness:
  "isCorn aCorn \<and> \<not> isEntityInView aCorn cornBounds \<and> \<not> isEntityInView_GC aCorn cornBounds \<and>
   aabbOverlap (posX aCorn) (posY aCorn) 32 48 cornBounds \<and>
   isSleepingBag aSleepingBag \<and>
   isEntityInView aSleepingBag bagBounds \<and>
   \<not> aabbOverlap (posX aSleepingBag) (posY aSleepingBag) 64 32 bagBounds"
proof -
  have c: "isCorn aCorn" by (simp add: aCorn_def blank_def isCorn_def)
  have s: "isSleepingBag aSleepingBag \<and> \<not> isPlayer aSleepingBag \<and> \<not> isTree aSleepingBag"
    by (simp add: aSleepingBag_def blank_def guard_defs)
  from unreachable_boxes [of aSleepingBag bagBounds] s
  have "isEntityInView aSleepingBag bagBounds =
      aabbOverlap (posX aSleepingBag) (posY aSleepingBag) 64 64 bagBounds" by blast
  moreover from unreachable_boxes [of aCorn cornBounds] c
  have "isEntityInView aCorn cornBounds = aabbOverlap (posX aCorn) (posY aCorn) 32 32 cornBounds"
    "isEntityInView_GC aCorn cornBounds = aabbOverlap (posX aCorn) (posY aCorn) 32 32 cornBounds"
    by blast+
  ultimately show ?thesis using c s
    by (simp add: aabbOverlap_def aCorn_def aSleepingBag_def blank_def cornBounds_def
        bagBounds_def)
qed

section \<open>Paint order\<close>

lemma exampleView_eq:
  "exampleView = \<lparr>viewMinX = -96, viewMaxX = 896, viewMinY = -96, viewMaxY = 696\<rparr>"
  by (simp add: exampleView_def getViewportBounds_def tileSize_def Let_def)

lemmas example_rows = aMushroom_def aTree_def aStone_def aBox_def alivePlayer_def deadPlayer_def
  aSleepingBag_def blank_def

text \<open>
  C3. The ground layer should hold the visible rows of the five flat kinds. In the
  example snapshot the mushroom and the sleeping bag are both visible. The hook leaves
  the mushroom out of its ground items (and would leave out corn the same way), and
  \<^verbatim>\<open>GameCanvas\<close> leaves the sleeping bag out of its own.
\<close>

theorem ground_layer_omissions:
  "visibleMushrooms exampleTables exampleView = [aMushroom] \<and>
   aMushroom \<notin> set (groundItems exampleTables exampleView) \<and>
   visibleSleepingBags exampleTables exampleView = [aSleepingBag] \<and>
   groundItems exampleTables exampleView = [aSleepingBag] \<and>
   groundItems_GC exampleTables exampleView = [aMushroom\<lparr>entityType := Some ''mushroom''\<rparr>]"
  by (simp add: exampleTables_def exampleView_eq example_rows visibleMushrooms_def
      visibleSleepingBags_def groundItems_def groundItems_GC_def visibleDroppedItems_def
      visibleCampfires_def visibleMushrooms_GC_def visibleCorns_GC_def
      visibleDroppedItems_GC_def visibleCampfires_GC_def isEntityInView_def
      isEntityInView_GC_def aabbOverlap_def guard_defs)


lemma renderGroundEntity_never_mushroom: "renderGroundEntity e \<noteq> Some RenderMushroom"
  by (simp add: renderGroundEntity_def isCorn_eq_isMushroom)

text \<open>
  The mushroom renderer is never chosen: a mushroom passes \<open>isCorn\<close>, which is asked
  first, so \<^verbatim>\<open>renderGroundEntities\<close> draws the mushrooms of \<^verbatim>\<open>GameCanvas\<close>, tagged
  \<^verbatim>\<open>'mushroom'\<close>, with the corn renderer.
\<close>

theorem mushrooms_drawn_as_corn:
  "renderGroundEntity e \<noteq> Some RenderMushroom \<and>
   (isMushroom m \<longrightarrow> renderGroundEntity (m\<lparr>entityType := Some ''mushroom''\<rparr>) = Some RenderCorn)"
proof (intro conjI impI)
  show "renderGroundEntity e \<noteq> Some RenderMushroom"
    by (rule renderGroundEntity_never_mushroom)
next
  assume m: "isMushroom m"
  let ?m = "m\<lparr>entityType := Some ''mushroom''\<rparr>"
  from m have "\<not> isDroppedItem ?m" by (simp add: isMushroom_def isDroppedItem_def)
  moreover from m have "isCorn ?m" by (simp add: isMushroom_def isCorn_def)
  ultimately show "renderGroundEntity ?m = Some RenderCorn"
    by (simp add: renderGroundEntity_def)
qed

theorem mushrooms_drawn_as_corn_witness:
  "isMushroom aMushroom \<and>
   groundItems_GC exampleTables exampleView = [aMushroom\<lparr>entityType := Some ''mushroom''\<rparr>] \<and>
   map renderGroundEntity (groundItems_GC exampleTables exampleView) = [Some RenderCorn]"
proof -
  have m: "isMushroom aMushroom" by (simp add: aMushroom_def blank_def isMushroom_def)
  from mushrooms_drawn_as_corn [of _ aMushroom] m
  have "renderGroundEntity (aMushroom\<lparr>entityType := Some ''mushroom''\<rparr>) = Some RenderCorn"
    by blast
  moreover have "groundItems_GC exampleTables exampleView =
      [aMushroom\<lparr>entityType := Some ''mushroom''\<rparr>]"
    by (simp add: exampleTables_def exampleView_eq example_rows groundItems_GC_def
      visibleMushrooms_GC_def visibleCorns_GC_def visibleDroppedItems_GC_def
      visibleCampfires_GC_def isEntityInView_GC_def aabbOverlap_def guard_defs)
  ultimately show ?thesis using m by simp
qed




lemma yKey_GC_eq: "yKey_GC e = yKey e"
  by (simp add: yKey_GC_def yKey_def)

lemma set_ySortedEntities:
  "set (ySortedEntities w b) =
     {e \<in> set (players w). isEntityInView e b} \<union>
     {e \<in> set (trees w). healthAboveZero e \<and> isEntityInView e b} \<union>
     {e \<in> set (stones w). healthAboveZero e \<and> isEntityInView e b} \<union>
     {e \<in> set (woodenStorageBoxes w). isEntityInView e b}"
  by (auto simp: ySortedEntities_def visiblePlayers_def visibleTrees_def visibleStones_def
      visibleWoodenStorageBoxes_def)

lemma set_ySortedEntities_GC:
  "set (ySortedEntities_GC w b) =
     {e \<in> set (players w). \<not> isDead e \<and> isEntityInView_GC e b} \<union>
     {e \<in> set (trees w). healthAboveZero e \<and> isEntityInView_GC e b} \<union>
     {e \<in> set (stones w). healthAboveZero e \<and> isEntityInView_GC e b} \<union>
     {e \<in> set (woodenStorageBoxes w). isEntityInView_GC e b}"
  by (auto simp: ySortedEntities_GC_def visiblePlayers_GC_def visibleTrees_GC_def
      visibleStones_GC_def visibleWoodenStorageBoxes_GC_def)


lemma example_keys:
  "yKey aStone = Some 60" "yKey deadPlayer = Some 90" "yKey alivePlayer = Some 120"
  "yKey aTree = Some 120" "yKey aBox = Some 120"
  by (simp_all add: yKey_def example_rows isPlayer_def)

lemma example_visible:
  "visiblePlayers exampleTables exampleView = [alivePlayer, deadPlayer]"
  "visibleTrees exampleTables exampleView = [aTree]"
  "visibleStones exampleTables exampleView = [aStone]"
  "visibleWoodenStorageBoxes exampleTables exampleView = [aBox]"
  "healthAboveZero aStone"
  by (simp_all add: exampleTables_def exampleView_eq example_rows visiblePlayers_def
      visibleTrees_def visibleStones_def visibleWoodenStorageBoxes_def healthAboveZero_def
      isEntityInView_def aabbOverlap_def guard_defs)

lemma example_ySorted:
  "ySortedEntities exampleTables exampleView = [aStone, deadPlayer, alivePlayer, aTree, aBox]"
  by (simp add: ySortedEntities_def Let_def example_visible example_keys)


lemma renderPlayerRotation_alive: "\<not> isDead p \<Longrightarrow> renderPlayerRotation p = None"
  by (simp add: renderPlayerRotation_def)

text \<open>
  C10. In \<^verbatim>\<open>GameCanvas\<close> no visible player is dead, so \<^verbatim>\<open>renderPlayer\<close> never
  rotates one of them; the same holds of every row of the Y-sorted list that passes
  \<open>isPlayer\<close>, provided no row of the tree, stone and storage-box tables does.
\<close>

theorem visiblePlayers_GC_alive:
  "(\<forall>p \<in> set (visiblePlayers_GC w b). \<not> isDead p \<and> renderPlayerRotation p = None) \<and>
   ((\<forall>e \<in> set (trees w @ stones w @ woodenStorageBoxes w). \<not> isPlayer e) \<longrightarrow>
    (\<forall>e \<in> set (ySortedEntities_GC w b). isPlayer e \<longrightarrow>
       \<not> isDead e \<and> renderPlayerRotation e = None))"
  by (auto simp: set_ySortedEntities_GC visiblePlayers_GC_def renderPlayerRotation_def)

lemma example_visible_GC:
  "visiblePlayers_GC exampleTables exampleView = [alivePlayer]"
  "visibleTrees_GC exampleTables exampleView = [aTree]"
  "visibleStones_GC exampleTables exampleView = [aStone]"
  "visibleWoodenStorageBoxes_GC exampleTables exampleView = [aBox]"
  by (simp_all add: exampleTables_def exampleView_eq example_rows visiblePlayers_GC_def
      visibleTrees_GC_def visibleStones_GC_def visibleWoodenStorageBoxes_GC_def
      healthAboveZero_def isEntityInView_GC_def aabbOverlap_def guard_defs)

lemma example_ySorted_GC:
  "ySortedEntities_GC exampleTables exampleView = [aStone, alivePlayer, aTree, aBox]"
  by (simp add: ySortedEntities_GC_def Let_def example_visible_GC example_keys yKey_GC_eq)

theorem visiblePlayers_GC_alive_witness:
  "players exampleTables = [alivePlayer, deadPlayer] \<and> isDead deadPlayer \<and>
   renderPlayerRotation deadPlayer = Some (pi / 2) \<and>
   visiblePlayers_GC exampleTables exampleView = [alivePlayer] \<and>
   ySortedEntities_GC exampleTables exampleView = [aStone, alivePlayer, aTree, aBox] \<and>
   \<not> isDead alivePlayer \<and> renderPlayerRotation alivePlayer = None"
proof -
  have wf: "\<forall>e \<in> set (trees exampleTables @ stones exampleTables @
                      woodenStorageBoxes exampleTables). \<not> isPlayer e"
    by (simp add: exampleTables_def example_rows isPlayer_def)
  have "isPlayer alivePlayer" by (simp add: example_rows isPlayer_def)
  moreover have "alivePlayer \<in> set (ySortedEntities_GC exampleTables exampleView)"
    by (simp add: example_ySorted_GC)
  ultimately have "\<not> isDead alivePlayer \<and> renderPlayerRotation alivePlayer = None"
    using visiblePlayers_GC_alive [of exampleTables exampleView] wf by blast
  moreover have "isDead deadPlayer" "renderPlayerRotation deadPlayer = Some (pi / 2)"
    "players exampleTables = [alivePlayer, deadPlayer]"
    by (simp_all add: exampleTables_def renderPlayerRotation_def deadPlayer_def blank_def)
  ultimately show ?thesis
    by (simp add: example_visible_GC example_ySorted_GC)
qed

text \<open>
  The Y-sorted list holds the visible players (in \<^verbatim>\<open>GameCanvas\<close>, the living ones),
  the visible trees and stones with health left and the visible storage boxes, each
  once for every time it is in its table, and nothing else.
\<close>

theorem ySortedEntities_contents:
  "set (ySortedEntities w b) =
     {e \<in> set (players w). isEntityInView e b} \<union>
     {e \<in> set (trees w). healthAboveZero e \<and> isEntityInView e b} \<union>
     {e \<in> set (stones w). healthAboveZero e \<and> isEntityInView e b} \<union>
     {e \<in> set (woodenStorageBoxes w). isEntityInView e b} \<and>
   set (ySortedEntities_GC w b) =
     {e \<in> set (players w). \<not> isDead e \<and> isEntityInView_GC e b} \<union>
     {e \<in> set (trees w). healthAboveZero e \<and> isEntityInView_GC e b} \<union>
     {e \<in> set (stones w). healthAboveZero e \<and> isEntityInView_GC e b} \<union>
     {e \<in> set (woodenStorageBoxes w). isEntityInView_GC e b} \<and>
   length (ySortedEntities w b) =
     length (visiblePlayers w b) + length (visibleTrees w b) + length (visibleStones w b) +
     length (visibleWoodenStorageBoxes w b) \<and>
   length (ySortedEntities_GC w b) =
     length (visiblePlayers_GC w b) + length (visibleTrees_GC w b) +
     length (visibleStones_GC w b) + length (visibleWoodenStorageBoxes_GC w b)"
proof -
  have "filter healthAboveZero (visibleStones w b) = visibleStones w b"
    by (simp add: visibleStones_def) (rule filter_cong, auto)
  then show ?thesis
    by (simp add: set_ySortedEntities set_ySortedEntities_GC)
      (simp add: ySortedEntities_def ySortedEntities_GC_def Let_def)
qed

theorem ySortedEntities_contents_witness:
  "set (ySortedEntities exampleTables exampleView) = {alivePlayer, deadPlayer, aTree, aStone, aBox} \<and>
   set (ySortedEntities_GC exampleTables exampleView) = {alivePlayer, aTree, aStone, aBox} \<and>
   length (ySortedEntities exampleTables exampleView) = 5"
proof -
  note t = ySortedEntities_contents [of exampleTables exampleView]
  from t have "length (ySortedEntities exampleTables exampleView) =
     length (visiblePlayers exampleTables exampleView) +
     length (visibleTrees exampleTables exampleView) +
     length (visibleStones exampleTables exampleView) +
     length (visibleWoodenStorageBoxes exampleTables exampleView)" by blast
  then have "length (ySortedEntities exampleTables exampleView) = 5"
    by (simp add: example_visible)
  then show ?thesis
    by (auto simp: example_ySorted example_ySorted_GC)
qed

section \<open>Player pose and hover reports\<close>

subsection \<open>Jump\<close>

text \<open>
  C7. For a player who has jumped (\<^verbatim>\<open>jumpStartTimeMs > 0\<close>) the offset is 0 when no
  time has elapsed, 0 again when the whole duration of 400 ms has elapsed (the branch is
  no longer taken then), and the height of 40 px when half of it has.
\<close>

theorem jumpOffset_start_mid_end:
  assumes "jumpStartTimeMs p > 0"
  shows "jumpOffset (real_of_int (jumpStartTimeMs p)) p = 0 \<and>
         jumpOffset (real_of_int (jumpStartTimeMs p) + JUMP_DURATION_MS) p = 0 \<and>
         jumpOffset (real_of_int (jumpStartTimeMs p) + JUMP_DURATION_MS / 2) p = JUMP_HEIGHT_PX \<and>
         JUMP_DURATION_MS = 400 \<and> JUMP_HEIGHT_PX = 40"
  using assms by (simp add: jumpOffset_def JUMP_DURATION_MS_def JUMP_HEIGHT_PX_def Let_def)

theorem jumpOffset_start_mid_end_witness:
  "jumpStartTimeMs alivePlayer > 0 \<and> jumpOffset 1000 alivePlayer = 0 \<and>
   jumpOffset 1400 alivePlayer = 0 \<and> jumpOffset 1200 alivePlayer = 40"
proof -
  have h: "jumpStartTimeMs alivePlayer > 0" by (simp add: alivePlayer_def blank_def)
  have "jumpStartTimeMs alivePlayer = 1000" by (simp add: alivePlayer_def blank_def)
  with jumpOffset_start_mid_end [OF h] h show ?thesis
    by (simp add: JUMP_DURATION_MS_def JUMP_HEIGHT_PX_def)
qed

subsection \<open>Hover\<close>

text \<open>
  C9. For a player of the list, with the id \<open>pid\<close>: while both mouse coordinates are
  there, \<^verbatim>\<open>onPlayerHover\<close> is called exactly when the hover test differs from the
  membership of the player in the persisted set, with the value of the test; when both
  are \<^verbatim>\<open>null\<close> it is called exactly when the player is in the set, with false; and
  whenever it is called, it is for this player and the value differs from the
  persisted membership.
\<close>

theorem onPlayerHover_only_on_change:
  assumes "isPlayer e" "identity e = Some pid"
  shows "(mx \<noteq> None \<and> my \<noteq> None \<longrightarrow>
            onPlayerHoverCall mx my H e =
              (if isPlayerHovered mx my e \<noteq> (pid \<in> H)
               then Some (pid, isPlayerHovered mx my e) else None)) \<and>
         (mx = None \<and> my = None \<longrightarrow>
            onPlayerHoverCall mx my H e = (if pid \<in> H then Some (pid, False) else None)) \<and>
         (\<forall>pid' v. onPlayerHoverCall mx my H e = Some (pid', v) \<longrightarrow>
            pid' = pid \<and> v \<noteq> (pid \<in> H))"
proof -
  have eq: "onPlayerHoverCall mx my H e =
      (if (mx \<noteq> None \<and> my \<noteq> None \<and> isPlayerHovered mx my e \<noteq> (pid \<in> H)) \<or>
          (mx = None \<and> my = None \<and> pid \<in> H)
       then Some (pid, if mx = None \<or> my = None then False else isPlayerHovered mx my e)
       else None)"
    using assms by (simp add: onPlayerHoverCall_def Let_def)
  show ?thesis
    unfolding eq by (cases mx; cases my) auto
qed

lemma alivePlayer_hover:
  "isPlayerHovered (Some 110) (Some 125) alivePlayer"
  "\<not> isPlayerHovered (Some 400) (Some 125) alivePlayer"
  by (simp_all add: isPlayerHovered_def alivePlayer_def blank_def playerRadius_def
      spriteWidth_def Let_def)

theorem onPlayerHover_only_on_change_witness:
  "isPlayer alivePlayer \<and> identity alivePlayer = Some ''c200'' \<and>
   onPlayerHoverCall (Some 110) (Some 125) {} alivePlayer = Some (''c200'', True) \<and>
   onPlayerHoverCall (Some 110) (Some 125) {''c200''} alivePlayer = None \<and>
   onPlayerHoverCall (Some 400) (Some 125) {''c200''} alivePlayer = Some (''c200'', False) \<and>
   onPlayerHoverCall None None {''c200''} alivePlayer = Some (''c200'', False) \<and>
   onPlayerHoverCall None None {} alivePlayer = None"
proof -
  have p: "isPlayer alivePlayer" and i: "identity alivePlayer = Some ''c200''"
    by (simp_all add: alivePlayer_def blank_def isPlayer_def)
  note t = onPlayerHover_only_on_change [OF p i]
  note moving = t [THEN conjunct1, rule_format]
  note left = t [THEN conjunct2, THEN conjunct1, rule_format]
  have "onPlayerHoverCall (Some 110) (Some 125) {} alivePlayer = Some (''c200'', True)"
    by (subst moving) (simp_all add: alivePlayer_hover)
  moreover have "onPlayerHoverCall (Some 110) (Some 125) {''c200''} alivePlayer = None"
    by (subst moving) (simp_all add: alivePlayer_hover)
  moreover have "onPlayerHoverCall (Some 400) (Some 125) {''c200''} alivePlayer =
      Some (''c200'', False)"
    by (subst moving) (simp_all add: alivePlayer_hover)
  moreover have "onPlayerHoverCall None None {''c200''} alivePlayer = Some (''c200'', False)"
    by (subst left) simp_all
  moreover have "onPlayerHoverCall None None {} alivePlayer = None"
    by (subst left) simp_all
  ultimately show ?thesis using p i by simp
qed

text \<open>Over a whole frame: every call is for a player of the list whose state changes.\<close>

lemma hoverCalls_changes:
  assumes "(pid, v) \<in> set (hoverCalls mx my H ys)"
  shows "v \<noteq> (pid \<in> H) \<and> (\<exists>e \<in> set ys. isPlayer e \<and> identity e = Some pid)"
proof -
  from assms obtain e where e: "e \<in> set ys" "onPlayerHoverCall mx my H e = Some (pid, v)"
    by (auto simp: hoverCalls_def map_filter_def)
  then have p: "isPlayer e" "identity e = Some pid"
    by (auto simp: onPlayerHoverCall_def Let_def split: option.splits if_splits)
  have "onPlayerHoverCall mx my H e =
      (if (mx \<noteq> None \<and> my \<noteq> None \<and> isPlayerHovered mx my e \<noteq> (pid \<in> H)) \<or>
          (mx = None \<and> my = None \<and> pid \<in> H)
       then Some (pid, if mx = None \<or> my = None then False else isPlayerHovered mx my e)
       else None)"
    using p by (simp add: onPlayerHoverCall_def Let_def)
  with e(2) have "v \<noteq> (pid \<in> H)"
    by (cases mx; cases my) (auto split: if_splits)
  with p e(1) show ?thesis by blast
qed

section \<open>Campfire particles\<close>

subsection \<open>The emission accumulator\<close>

lemma emitWhile_eq: "0 \<le> acc \<Longrightarrow> emitWhile acc n = (frac acc, n + nat \<lfloor>acc\<rfloor>)"
proof (induction acc n rule: emitWhile.induct)
  case (1 acc n)
  show ?case
  proof (cases "acc \<ge> 1")
    case True
    then have "emitWhile acc n = emitWhile (acc - 1) (Suc n)"
      by (subst emitWhile.simps) simp
    also have "\<dots> = (frac (acc - 1), Suc n + nat \<lfloor>acc - 1\<rfloor>)"
      using "1.IH" True by simp
    also have "frac (acc - 1) = frac acc"
      by (simp add: frac_def)
    also have "Suc n + nat \<lfloor>acc - 1\<rfloor> = n + nat \<lfloor>acc\<rfloor>"
      using True by (simp add: nat_diff_distrib; linarith)
    finally show ?thesis .
  next
    case False
    with "1.prems" have z: "\<lfloor>acc\<rfloor> = 0" by linarith
    then have "frac acc = acc" by (simp add: frac_def)
    with False z show ?thesis
      by (subst emitWhile.simps) simp
  qed
qed

lemma accumulate_eq:
  "0 \<le> acc + rate * dtf \<Longrightarrow>
     accumulate rate dtf acc = (frac (acc + rate * dtf), nat \<lfloor>acc + rate * dtf\<rfloor>)"
  by (simp add: accumulate_def emitWhile_eq)

lemma floor_split:
  fixes a b :: real
  shows "\<lfloor>a\<rfloor> + \<lfloor>frac a + b\<rfloor> = \<lfloor>a + b\<rfloor>"
proof -
  have "frac a + b = (a + b) - of_int \<lfloor>a\<rfloor>" by (simp add: frac_def)
  then have "\<lfloor>frac a + b\<rfloor> = \<lfloor>a + b\<rfloor> - \<lfloor>a\<rfloor>" by (simp only: floor_diff_of_int)
  then show ?thesis by simp
qed

lemma frac_split:
  fixes a b :: real
  shows "frac (frac a + b) = frac (a + b)"
  using floor_split [of a b] by (simp add: frac_def) 

lemma accumulateAll_eq_aux:
  fixes k :: real
  assumes k: "0 < k"
    and step: "\<And>d rest a. f (d # rest) a =
            (case accumulate rate (d / k) a of
               (acc1, n) \<Rightarrow> (case f rest acc1 of (acc2, m) \<Rightarrow> (acc2, n + m)))"
    and nil: "\<And>a. f [] a = (a, 0)"
    and "0 \<le> rate" "\<forall>dt \<in> set dts. 0 < dt" "0 \<le> acc" "acc < 1"
  shows "f dts acc =
           (frac (acc + rate * (sum_list dts / k)), nat \<lfloor>acc + rate * (sum_list dts / k)\<rfloor>)"
  using assms(4-)
proof (induction dts arbitrary: acc)
  case Nil
  then have "\<lfloor>acc\<rfloor> = 0" by linarith
  then show ?case by (simp add: nil frac_def)
next
  case (Cons d ds)
  let ?a = "acc + rate * (d / k)"
  let ?b = "rate * (sum_list ds / k)"
  from Cons.prems have d: "0 < d" and ds: "\<forall>dt \<in> set ds. 0 < dt" by auto
  from ds have "0 \<le> sum_list ds" by (simp add: sum_list_nonneg less_imp_le)
  with Cons.prems(1) k have b: "0 \<le> ?b" by simp
  from Cons.prems(1,3) d k have a: "0 \<le> ?a" by simp
  have one: "accumulate rate (d / k) acc = (frac ?a, nat \<lfloor>?a\<rfloor>)"
    using a by (rule accumulate_eq)
  have rest: "f ds (frac ?a) = (frac (frac ?a + ?b), nat \<lfloor>frac ?a + ?b\<rfloor>)"
    using Cons.IH [OF Cons.prems(1) ds, of "frac ?a"] by (simp add: frac_lt_1)
  have sum: "acc + rate * (sum_list (d # ds) / k) = ?a + ?b"
    by (simp add: algebra_simps add_divide_distrib)
  have "0 \<le> \<lfloor>?a\<rfloor>" using a by simp
  moreover have "0 \<le> \<lfloor>frac ?a + ?b\<rfloor>" using b by (simp add: add_nonneg_nonneg)
  ultimately have "nat \<lfloor>?a\<rfloor> + nat \<lfloor>frac ?a + ?b\<rfloor> = nat \<lfloor>?a + ?b\<rfloor>"
    using floor_split [of ?a ?b] by (simp add: nat_add_distrib [symmetric])
  then show ?case
    by (simp only: step one rest sum frac_split prod.case)
qed

lemma accumulateAll_eq:
  assumes "0 \<le> rate" "\<forall>dt \<in> set dts. 0 < dt" "0 \<le> acc" "acc < 1"
  shows "accumulateAll rate dts acc =
           (frac (acc + rate * (sum_list dts / 16.667)),
            nat \<lfloor>acc + rate * (sum_list dts / 16.667)\<rfloor>)"
proof (rule accumulateAll_eq_aux [OF _ _ _ assms])
  show "(0::real) < 16.667" by simp
  show "accumulateAll rate (d # rest) a =
          (case accumulate rate (d / 16.667) a of
             (acc1, n) \<Rightarrow> (case accumulateAll rate rest acc1 of (acc2, m) \<Rightarrow> (acc2, n + m)))"
    for d rest a
    by (simp only: accumulateAll.simps Let_def)
  show "accumulateAll rate [] a = (a, 0)" for a by simp
qed

lemma within_one:
  fixes x acc :: real
  assumes "0 \<le> x" "0 \<le> acc" "acc < 1"
  shows "\<bar>real (nat \<lfloor>acc + x\<rfloor>) - x\<bar> \<le> 1"
proof -
  from assms have "0 \<le> \<lfloor>acc + x\<rfloor>" by simp
  then have n: "real (nat \<lfloor>acc + x\<rfloor>) = of_int \<lfloor>acc + x\<rfloor>" by simp
  have "of_int \<lfloor>acc + x\<rfloor> \<le> acc + x" "acc + x < of_int \<lfloor>acc + x\<rfloor> + 1"
    by linarith+
  with assms n show ?thesis by linarith
qed



subsection \<open>One campfire in one frame\<close>

lemma fireZones_ptype:
  "p \<in> set (snd (fireZones now dtf k zs accs)) \<Longrightarrow> p = \<lparr>ptype = fire, spawnTime = now\<rparr>"
  by (induction zs arbitrary: accs) (auto simp: Let_def split_def)

text \<open>What one campfire's iteration leaves under any key of the four maps keyed by id.\<close>

lemma processCampfire_prev:
  "map_of (prevBurningStates (fst (processCampfire now dtf k c st))) k' =
     (if k' = k then Some (isBurning c = Some True) else map_of (prevBurningStates st) k')"
  by (simp add: processCampfire_def Let_def split_def update_conv')

lemma processCampfire_lastUpdateTime:
  "lastUpdateTime (fst (processCampfire now dtf k c st)) = lastUpdateTime st"
  by (simp add: processCampfire_def Let_def split_def)

lemma processCampfire_lingering_other:
  "k' \<noteq> k \<Longrightarrow> map_of (lingeringSmokeData (fst (processCampfire now dtf k c st))) k' =
     map_of (lingeringSmokeData st) k'"
  by (auto simp add: processCampfire_def Let_def split_def update_conv' delete_conv'
      split: option.splits if_splits)

lemma processCampfire_smoke_other:
  "k' \<noteq> k \<Longrightarrow> map_of (smokeEmissionAccumulator (fst (processCampfire now dtf k c st))) k' =
     map_of (smokeEmissionAccumulator st) k'"
  by (auto simp add: processCampfire_def Let_def split_def update_conv' split: if_splits)





lemma processCampfire_burst:
  "p \<in> set (snd (processCampfire now dtf k c st)) \<Longrightarrow> ptype p = smoke_burst \<Longrightarrow>
     isPlayerInHotZone c \<and> isBurning c = Some True"
  by (auto simp add: processCampfire_def Let_def split_def
      split: option.splits if_splits dest: fireZones_ptype)

subsection \<open>A whole frame\<close>

lemma processCampfire_view_other:
  "k' \<noteq> k \<Longrightarrow> view (fst (processCampfire now dtf k c st)) k' = view st k'"
  by (simp add: view_def processCampfire_prev processCampfire_lingering_other
      processCampfire_smoke_other)

lemma forEachCampfire_lastUpdateTime:
  "lastUpdateTime (fst (forEachCampfire now dtf cs st)) = lastUpdateTime st"
  by (induction cs arbitrary: st) (auto simp: split_def Let_def processCampfire_lastUpdateTime)

lemma forEachCampfire_other:
  "k \<notin> fst ` set cs \<Longrightarrow>
     view (fst (forEachCampfire now dtf cs st)) k = view st k \<and>
     map_of (snd (forEachCampfire now dtf cs st)) k = None"
proof (induction cs arbitrary: st)
  case Nil
  then show ?case by simp
next
  case (Cons a cs)
  obtain k' c' where a: "a = (k', c')" by (cases a)
  with Cons.prems have "k' \<noteq> k" "k \<notin> fst ` set cs" by auto
  then show ?case
    using Cons.IH [of "fst (processCampfire now dtf k' c' st)"]
    by (simp add: a split_def Let_def processCampfire_view_other)
qed

lemma forEachCampfire_at:
  "distinct (map fst cs) \<Longrightarrow> map_of cs k = Some c \<Longrightarrow>
     \<exists>st0. view st0 k = view st k \<and>
       view (fst (forEachCampfire now dtf cs st)) k = view (fst (processCampfire now dtf k c st0)) k \<and>
       map_of (snd (forEachCampfire now dtf cs st)) k = Some (snd (processCampfire now dtf k c st0))"
proof (induction cs arbitrary: st)
  case Nil
  then show ?case by simp
next
  case (Cons a cs)
  obtain k' c' where a: "a = (k', c')" by (cases a)
  show ?case
  proof (cases "k' = k")
    case True
    with Cons.prems a have c: "c' = c" and notin: "k \<notin> fst ` set cs" by auto
    from forEachCampfire_other [OF notin, of now dtf "fst (processCampfire now dtf k c st)"]
    show ?thesis
      by (intro exI [of _ st]) (simp add: a True c split_def Let_def)
  next
    case False
    with Cons.prems a have d: "distinct (map fst cs)" and m: "map_of cs k = Some c" by auto
    from Cons.IH [OF d m, of "fst (processCampfire now dtf k' c' st)"]
    obtain st0 where "view st0 k = view (fst (processCampfire now dtf k' c' st)) k"
      and "view (fst (forEachCampfire now dtf cs (fst (processCampfire now dtf k' c' st)))) k =
           view (fst (processCampfire now dtf k c st0)) k"
      and "map_of (snd (forEachCampfire now dtf cs (fst (processCampfire now dtf k' c' st)))) k =
           Some (snd (processCampfire now dtf k c st0))"
      by blast
    with False show ?thesis
      by (intro exI [of _ st0]) (simp add: a split_def Let_def processCampfire_view_other)
  qed
qed

lemma map_of_fold_delete:
  "map_of (fold AList.delete ks m) k = (if k \<in> set ks then None else map_of m k)"
  by (induction ks arbitrary: m) (auto simp: delete_conv')

lemma cleanupRefs_view:
  "k \<in> set vis \<Longrightarrow> view (cleanupRefs vis st) k = view st k"
  by (simp add: view_def cleanupRefs_def Let_def map_of_fold_delete)

lemma cleanupRefs_lastUpdateTime: "lastUpdateTime (cleanupRefs vis st) = lastUpdateTime st"
  by (simp add: cleanupRefs_def Let_def)

lemma view_eqD:
  assumes "view st0 k = view st k"
  shows "wasBurningBefore st0 k = wasBurningBefore st k"
    and "map_of (lingeringSmokeData st0) k = map_of (lingeringSmokeData st) k"
    and "getOrZero (smokeEmissionAccumulator st0) k = getOrZero (smokeEmissionAccumulator st) k"
    and "smokeOn now st0 k = smokeOn now st k"
  using assms by (simp_all add: view_def wasBurningBefore_def getOrZero_def smokeOn_def)

lemma updateParticles_at:
  assumes "lastUpdateTime st < now" "distinct (map fst cs)" "map_of cs k = Some c"
  shows "\<exists>st0. view st0 k = view st k \<and>
           view (fst (updateParticles now cs st)) k =
             view (fst (processCampfire now ((now - lastUpdateTime st) / 16.667) k c st0)) k \<and>
           map_of (snd (updateParticles now cs st)) k =
             Some (snd (processCampfire now ((now - lastUpdateTime st) / 16.667) k c st0))"
proof -
  let ?st = "st\<lparr>lastUpdateTime := now\<rparr>"
  let ?dtf = "(now - lastUpdateTime st) / 16.667"
  from forEachCampfire_at [OF assms(2,3), of ?st now ?dtf]
  obtain st0 where v: "view st0 k = view ?st k"
    and f: "view (fst (forEachCampfire now ?dtf cs ?st)) k =
            view (fst (processCampfire now ?dtf k c st0)) k"
    and g: "map_of (snd (forEachCampfire now ?dtf cs ?st)) k =
            Some (snd (processCampfire now ?dtf k c st0))"
    by blast
  from assms(3) have "k \<in> set (map fst cs)"
    by (metis map_of_eq_None_iff option.distinct(1) set_map)
  then have c: "view (cleanupRefs (map fst cs) (fst (forEachCampfire now ?dtf cs ?st))) k =
      view (fst (forEachCampfire now ?dtf cs ?st)) k"
    by (rule cleanupRefs_view)
  have "view st0 k = view st k" using v by (simp add: view_def)
  moreover have "updateParticles now cs st =
      (cleanupRefs (map fst cs) (fst (forEachCampfire now ?dtf cs ?st)),
       snd (forEachCampfire now ?dtf cs ?st))"
    using assms(1) by (simp add: updateParticles_def Let_def split_def)
  ultimately show ?thesis using f g c by (intro exI [of _ st0]) simp
qed

lemma updateParticles_lastUpdateTime: "lastUpdateTime (fst (updateParticles now cs st)) = now"
  by (simp add: updateParticles_def Let_def split_def cleanupRefs_lastUpdateTime
      forEachCampfire_lastUpdateTime)



subsection \<open>Runs of frames\<close>


lemma fireZones_no_smoke:
  "filter (\<lambda>p. ptype p = smoke) (snd (fireZones now dtf k zs accs)) = []"
  by (auto simp: filter_empty_conv dest: fireZones_ptype)

lemma processCampfire_on_smoke:
  assumes "isBurning c = Some True"
  shows "map_of (smokeEmissionAccumulator (fst (processCampfire now dtf k c st))) k =
           Some (fst (accumulate SMOKE_PARTICLES_PER_CAMPFIRE_FRAME dtf
                        (getOrZero (smokeEmissionAccumulator st) k)))"
    and "length (filter (\<lambda>p. ptype p = smoke) (snd (processCampfire now dtf k c st))) =
           snd (accumulate SMOKE_PARTICLES_PER_CAMPFIRE_FRAME dtf
                  (getOrZero (smokeEmissionAccumulator st) k))"
  using assms
  by (simp_all add: processCampfire_def Let_def split_def update_conv' fireZones_no_smoke)

lemma updateParticles_on_smoke:
  assumes "lastUpdateTime st < now" "distinct (map fst cs)" "map_of cs k = Some c"
    and on: "isBurning c = Some True"
  shows "getOrZero (smokeEmissionAccumulator (fst (updateParticles now cs st))) k =
           fst (accumulate SMOKE_PARTICLES_PER_CAMPFIRE_FRAME
                  ((now - lastUpdateTime st) / 16.667)
                  (getOrZero (smokeEmissionAccumulator st) k))"
    and "(case map_of (snd (updateParticles now cs st)) k of
            Some ps \<Rightarrow> length (filter (\<lambda>p. ptype p = smoke) ps) | None \<Rightarrow> 0) =
           snd (accumulate SMOKE_PARTICLES_PER_CAMPFIRE_FRAME
                  ((now - lastUpdateTime st) / 16.667)
                  (getOrZero (smokeEmissionAccumulator st) k))"
proof -
  let ?dtf = "(now - lastUpdateTime st) / 16.667"
  from updateParticles_at [OF assms(1-3)]
  obtain st0 where v: "view st0 k = view st k"
    and f: "view (fst (updateParticles now cs st)) k =
            view (fst (processCampfire now ?dtf k c st0)) k"
    and g: "map_of (snd (updateParticles now cs st)) k =
            Some (snd (processCampfire now ?dtf k c st0))"
    by blast
  note e = view_eqD [OF v]
  from f have "map_of (smokeEmissionAccumulator (fst (updateParticles now cs st))) k =
      map_of (smokeEmissionAccumulator (fst (processCampfire now ?dtf k c st0))) k"
    by (simp add: view_def)
  then show "getOrZero (smokeEmissionAccumulator (fst (updateParticles now cs st))) k =
           fst (accumulate SMOKE_PARTICLES_PER_CAMPFIRE_FRAME ?dtf
                  (getOrZero (smokeEmissionAccumulator st) k))"
    by (simp add: getOrZero_def processCampfire_on_smoke(1) [OF on] e(3) [unfolded getOrZero_def])
  show "(case map_of (snd (updateParticles now cs st)) k of
            Some ps \<Rightarrow> length (filter (\<lambda>p. ptype p = smoke) ps) | None \<Rightarrow> 0) =
           snd (accumulate SMOKE_PARTICLES_PER_CAMPFIRE_FRAME ?dtf
                  (getOrZero (smokeEmissionAccumulator st) k))"
    by (simp only: g option.case processCampfire_on_smoke(2) [OF on] e(3))
qed

lemma staysOn_smoke:
  assumes "staysOn k (lastUpdateTime st) events"
  shows "smokeCount k (snd (simulate events st)) =
           snd (accumulateAll SMOKE_PARTICLES_PER_CAMPFIRE_FRAME
                  (frameTimes (lastUpdateTime st) events)
                  (getOrZero (smokeEmissionAccumulator st) k)) \<and>
         getOrZero (smokeEmissionAccumulator (fst (simulate events st))) k =
           fst (accumulateAll SMOKE_PARTICLES_PER_CAMPFIRE_FRAME
                  (frameTimes (lastUpdateTime st) events)
                  (getOrZero (smokeEmissionAccumulator st) k)) \<and>
         (\<forall>dt \<in> set (frameTimes (lastUpdateTime st) events). 0 < dt)"
  using assms
proof (induction events arbitrary: st)
  case Nil
  then show ?case by (simp add: smokeCount_def)
next
  case (Cons ev events)
  show ?case
  proof (cases ev)
    case (Tick now cs)
    from Cons.prems Tick obtain c where t: "lastUpdateTime st < now" "distinct (map fst cs)"
      "map_of cs k = Some c" and on: "isBurning c = Some True" and rest: "staysOn k now events"
      by (auto split: option.splits)
    let ?st1 = "fst (updateParticles now cs st)"
    note up = updateParticles_on_smoke [OF t on]
    have l1: "lastUpdateTime ?st1 = now" by (rule updateParticles_lastUpdateTime)
    with rest have "staysOn k (lastUpdateTime ?st1) events" by simp
    from Cons.IH [OF this] t(1) show ?thesis
      by (simp add: Tick split_def Let_def smokeCount_def up l1)
  next
    case (Remount now)
    with Cons.prems have "staysOn k (lastUpdateTime (st\<lparr>lastUpdateTime := now\<rparr>)) events"
      by simp
    from Cons.IH [OF this] show ?thesis
      by (simp add: Remount split_def Let_def smokeCount_def)
  qed
qed

text \<open>
  The accumulator in the loop itself: through any run in which the campfire \<open>k\<close> stays
  visible and burning, the smoke generated for \<open>k\<close> is within one particle of
  \<open>0.3 \<times> T / 16.667\<close>, \<open>T\<close> being the sum of the frame times, and the smoke
  accumulator of \<open>k\<close> ends in \<open>[0, 1)\<close>.
\<close>

theorem burning_campfire_smoke_rate:
  assumes "staysOn k (lastUpdateTime st) events"
    and "0 \<le> getOrZero (smokeEmissionAccumulator st) k"
    and "getOrZero (smokeEmissionAccumulator st) k < 1"
  shows "\<bar>real (smokeCount k (snd (simulate events st))) -
           SMOKE_PARTICLES_PER_CAMPFIRE_FRAME *
             (sum_list (frameTimes (lastUpdateTime st) events) / 16.667)\<bar> \<le> 1 \<and>
         0 \<le> getOrZero (smokeEmissionAccumulator (fst (simulate events st))) k \<and>
         getOrZero (smokeEmissionAccumulator (fst (simulate events st))) k < 1"
proof -
  let ?dts = "frameTimes (lastUpdateTime st) events"
  let ?acc = "getOrZero (smokeEmissionAccumulator st) k"
  note s = staysOn_smoke [OF assms(1)]
  have r: "0 \<le> SMOKE_PARTICLES_PER_CAMPFIRE_FRAME"
    by (simp add: SMOKE_PARTICLES_PER_CAMPFIRE_FRAME_def)
  from s have pos: "\<forall>dt \<in> set ?dts. 0 < dt" by blast
  note eq = accumulateAll_eq [OF r pos assms(2,3)]
  from pos have "0 \<le> sum_list ?dts" by (simp add: sum_list_nonneg less_imp_le)
  with r have x: "0 \<le> SMOKE_PARTICLES_PER_CAMPFIRE_FRAME * (sum_list ?dts / 16.667)" by simp
  have "\<bar>real (nat \<lfloor>?acc + SMOKE_PARTICLES_PER_CAMPFIRE_FRAME * (sum_list ?dts / 16.667)\<rfloor>) -
      SMOKE_PARTICLES_PER_CAMPFIRE_FRAME * (sum_list ?dts / 16.667)\<bar> \<le> 1"
    using x assms(2,3) by (rule within_one)
  with s show ?thesis
    by (simp only: eq fst_conv snd_conv frac_ge_0 frac_lt_1 simp_thms)
qed

theorem burning_campfire_smoke_rate_witness:
  "staysOn ''1'' 0 burningRun \<and> frameTimes 0 burningRun = [16.667, 33.334, 33.334] \<and>
   \<bar>real (smokeCount ''1'' (snd (simulate burningRun (initialRefs 0)))) - 0.3 * 5\<bar> \<le> 1"
proof -
  have on: "staysOn ''1'' (lastUpdateTime (initialRefs 0)) burningRun"
    by (simp add: burningRun_def initialRefs_def campfireOn_def blank_def)
  have f: "frameTimes (lastUpdateTime (initialRefs 0)) burningRun = [16.667, 33.334, 33.334]"
    by (simp add: burningRun_def initialRefs_def)
  have a: "getOrZero (smokeEmissionAccumulator (initialRefs 0)) ''1'' = 0"
    by (simp add: getOrZero_def initialRefs_def)
  have l: "lastUpdateTime (initialRefs 0) = 0" by (simp add: initialRefs_def)
  from burning_campfire_smoke_rate [OF on] a
  have "\<bar>real (smokeCount ''1'' (snd (simulate burningRun (initialRefs 0)))) -
           SMOKE_PARTICLES_PER_CAMPFIRE_FRAME * (sum_list [16.667, 33.334, 33.334] / 16.667)\<bar> \<le> 1"
    unfolding f by simp
  then have "\<bar>real (smokeCount ''1'' (snd (simulate burningRun (initialRefs 0)))) - 0.3 * 5\<bar> \<le> 1"
    by (simp add: SMOKE_PARTICLES_PER_CAMPFIRE_FRAME_def)
  with on f show ?thesis by (simp only: l simp_thms)
qed

subsection \<open>Smoke bursts\<close>

lemma forEachCampfire_generated:
  "(k, ps) \<in> set (snd (forEachCampfire now dtf cs st)) \<Longrightarrow>
     \<exists>c st0. (k, c) \<in> set cs \<and> ps = snd (processCampfire now dtf k c st0)"
proof (induction cs arbitrary: st)
  case Nil
  then show ?case by simp
next
  case (Cons a cs)
  obtain k' c' where a: "a = (k', c')" by (cases a)
  from Cons.prems have "(k, ps) = (k', snd (processCampfire now dtf k' c' st)) \<or>
      (k, ps) \<in> set (snd (forEachCampfire now dtf cs (fst (processCampfire now dtf k' c' st))))"
    by (simp add: a split_def Let_def)
  then show ?case
  proof
    assume "(k, ps) = (k', snd (processCampfire now dtf k' c' st))"
    then show ?thesis using a by auto
  next
    assume "(k, ps) \<in> set (snd (forEachCampfire now dtf cs (fst (processCampfire now dtf k' c' st))))"
    from Cons.IH [OF this] show ?thesis by auto
  qed
qed

lemma updateParticles_generated:
  "\<exists>c dtf st0. (k, c) \<in> set cs \<and> ps = snd (processCampfire now dtf k c st0)"
  if "(k, ps) \<in> set (snd (updateParticles now cs st))"
proof (cases "now - lastUpdateTime st \<le> 0")
  case True
  with that show ?thesis by (simp add: updateParticles_def Let_def)
next
  case False
  with that have "(k, ps) \<in> set (snd (forEachCampfire now ((now - lastUpdateTime st) / 16.667) cs
      (st\<lparr>lastUpdateTime := now\<rparr>)))"
    by (simp add: updateParticles_def Let_def split_def)
  from forEachCampfire_generated [OF this] show ?thesis by blast
qed

lemma updateParticles_burst:
  assumes "(k, ps) \<in> set (snd (updateParticles now cs st))" "p \<in> set ps" "ptype p = smoke_burst"
  shows "\<exists>c. (k, c) \<in> set cs \<and> isPlayerInHotZone c \<and> isBurning c = Some True"
proof -
  from updateParticles_generated [OF assms(1)]
  obtain c dtf st0 where "(k, c) \<in> set cs" "ps = snd (processCampfire now dtf k c st0)"
    by blast
  with assms(2,3) processCampfire_burst [of p now dtf k c st0] show ?thesis by blast
qed

lemma simulate_generated:
  "gen \<in> set (snd (simulate events st)) \<Longrightarrow>
     gen = [] \<or> (\<exists>now cs st0. Tick now cs \<in> set events \<and> gen = snd (updateParticles now cs st0))"
proof (induction events arbitrary: st)
  case Nil
  then show ?case by simp
next
  case (Cons ev events)
  show ?case
  proof (cases ev)
    case (Tick now cs)
    with Cons.prems have "gen = snd (updateParticles now cs st) \<or>
        gen \<in> set (snd (simulate events (fst (updateParticles now cs st))))"
      by (simp add: split_def Let_def)
    then show ?thesis
    proof
      assume "gen = snd (updateParticles now cs st)"
      then show ?thesis using Tick by auto
    next
      assume "gen \<in> set (snd (simulate events (fst (updateParticles now cs st))))"
      from Cons.IH [OF this] show ?thesis by auto
    qed
  next
    case (Remount now)
    with Cons.prems have "gen = [] \<or>
        gen \<in> set (snd (simulate events (st\<lparr>lastUpdateTime := now\<rparr>)))"
      by (simp add: split_def Let_def)
    then show ?thesis
    proof
      assume "gen = []"
      then show ?thesis by simp
    next
      assume "gen \<in> set (snd (simulate events (st\<lparr>lastUpdateTime := now\<rparr>)))"
      from Cons.IH [OF this] show ?thesis by auto
    qed
  qed
qed

text \<open>
  C6. A particle of type \<open>smoke_burst\<close> that a tick generates for the campfire \<open>k\<close>
  comes from an entry of the map under \<open>k\<close> that is burning with a player in its hot
  zone. Hence a run of any length in which every entry under \<open>k\<close> burns without a
  player in the hot zone generates only fire and smoke for \<open>k\<close>.
\<close>

theorem smoke_burst_needs_hot_zone_and_fire:
  "(\<forall>k ps p. (k, ps) \<in> set (snd (updateParticles now cs st)) \<and> p \<in> set ps \<and>
       ptype p = smoke_burst \<longrightarrow>
       (\<exists>c. (k, c) \<in> set cs \<and> isPlayerInHotZone c \<and> isBurning c = Some True)) \<and>
   ((\<forall>t m c. Tick t m \<in> set events \<and> (k, c) \<in> set m \<longrightarrow>
        isBurning c = Some True \<and> \<not> isPlayerInHotZone c) \<longrightarrow>
    (\<forall>gen \<in> set (snd (simulate events st)). \<forall>ps p. (k, ps) \<in> set gen \<and> p \<in> set ps \<longrightarrow>
        ptype p = fire \<or> ptype p = smoke))"
proof (intro conjI allI impI ballI)
  fix k ps p
  assume "(k, ps) \<in> set (snd (updateParticles now cs st)) \<and> p \<in> set ps \<and> ptype p = smoke_burst"
  then show "\<exists>c. (k, c) \<in> set cs \<and> isPlayerInHotZone c \<and> isBurning c = Some True"
    using updateParticles_burst by blast
next
  fix gen ps p
  assume cold: "\<forall>t m c. Tick t m \<in> set events \<and> (k, c) \<in> set m \<longrightarrow>
        isBurning c = Some True \<and> \<not> isPlayerInHotZone c"
    and gen: "gen \<in> set (snd (simulate events st))"
    and p: "(k, ps) \<in> set gen \<and> p \<in> set ps"
  from simulate_generated [OF gen] p
  obtain now' cs' st0 where tick: "Tick now' cs' \<in> set events"
    and g: "gen = snd (updateParticles now' cs' st0)" by auto
  have "ptype p \<noteq> smoke_burst"
  proof
    assume "ptype p = smoke_burst"
    with p g updateParticles_burst [of k ps now' cs' st0 p]
    obtain c where "(k, c) \<in> set cs'" "isPlayerInHotZone c" by blast
    with cold tick show False by blast
  qed
  then show "ptype p = fire \<or> ptype p = smoke" by (cases "ptype p") simp_all
qed

lemmas tick_eval = updateParticles_def forEachCampfire.simps processCampfire_def Let_def
  split_def wasBurningBefore_def initialRefs_def campfireOn_def blank_def
  FIRE_EMISSION_ZONES_def accumulate_def emitWhile_eq frac_def getOrZero_def
  SMOKE_PARTICLES_PER_CAMPFIRE_FRAME_def

lemma updateParticles_on_example:
  "snd (updateParticles 66.668 [(''1'', campfireOn)] (initialRefs 0)) =
     [(''1'', [\<lparr>ptype = fire, spawnTime = 66.668\<rparr>, \<lparr>ptype = fire, spawnTime = 66.668\<rparr>,
               \<lparr>ptype = smoke, spawnTime = 66.668\<rparr>])]"
  by (simp add: tick_eval)

lemma updateParticles_hot_example:
  "snd (updateParticles 16.667 [(''1'', campfireHot)] (initialRefs 0)) =
     [(''1'', replicate 4 \<lparr>ptype = smoke_burst, spawnTime = 16.667\<rparr>)]"
  by (simp add: tick_eval campfireHot_def)

theorem smoke_burst_needs_hot_zone_and_fire_witness:
  "snd (simulate [Tick 66.668 [(''1'', campfireOn)]] (initialRefs 0)) =
     [[(''1'', [\<lparr>ptype = fire, spawnTime = 66.668\<rparr>, \<lparr>ptype = fire, spawnTime = 66.668\<rparr>,
                \<lparr>ptype = smoke, spawnTime = 66.668\<rparr>])]] \<and>
   snd (updateParticles 16.667 [(''1'', campfireHot)] (initialRefs 0)) =
     [(''1'', replicate 4 \<lparr>ptype = smoke_burst, spawnTime = 16.667\<rparr>)] \<and>
   isPlayerInHotZone campfireHot \<and> isBurning campfireHot = Some True \<and>
   \<not> isPlayerInHotZone campfireOn \<and> isBurning campfireOn = Some True"
proof -
  let ?events = "[Tick 66.668 [(''1'', campfireOn)]]"
  let ?b = "\<lparr>ptype = smoke_burst, spawnTime = 16.667\<rparr>"
  note t = smoke_burst_needs_hot_zone_and_fire
    [where now = "16.667" and cs = "[(''1'', campfireHot)]" and st = "initialRefs 0"
       and events = ?events and k = "''1''"]
  have cold: "\<not> isPlayerInHotZone campfireOn" "isBurning campfireOn = Some True"
    by (simp_all add: campfireOn_def blank_def)
  have sim: "snd (simulate ?events (initialRefs 0)) =
      [snd (updateParticles 66.668 [(''1'', campfireOn)] (initialRefs 0))]"
    by (simp add: split_def Let_def)
  have "(''1'', replicate 4 ?b) \<in> set (snd (updateParticles 16.667 [(''1'', campfireHot)] (initialRefs 0)))
      \<and> ?b \<in> set (replicate 4 ?b) \<and> ptype ?b = smoke_burst"
    unfolding updateParticles_hot_example by simp
  with t obtain c where "(''1'', c) \<in> set [(''1'', campfireHot)]"
    "isPlayerInHotZone c" "isBurning c = Some True"
    by blast
  then have hot: "isPlayerInHotZone campfireHot" "isBurning campfireHot = Some True"
    by simp_all
  show ?thesis
    unfolding sim updateParticles_on_example updateParticles_hot_example
    using hot cold by simp
qed

subsection \<open>Lingering smoke\<close>




end
